theory Spec2Isabelle
  imports Complex_Main "HOL-Library.Word"
begin

section \<open>Single-precision values\<close>

text \<open>
  The C type \<open>float\<close> of \<open>SensorData.value\<close> and of the five \<open>float\<close> fields of
  \<open>SensorStats\<close> is IEEE 754 binary32. A value is a signed finite number (sign bit and
  magnitude, so that \<open>-0.0\<close> is kept apart from \<open>0.0\<close>), a signed infinity, or a NaN
  with its sign bit. The sign is \<open>True\<close> for negative.
\<close>

datatype float = Finite bool rat | Infinity bool | NaN bool

fun valof :: "float \<Rightarrow> rat" where
  "valof (Finite s m) = (if s then - m else m)"
| "valof (Infinity s) = 0"
| "valof (NaN s) = 0"

fun is_finite :: "float \<Rightarrow> bool" where
  "is_finite (Finite s m) = True"
| "is_finite (Infinity s) = False"
| "is_finite (NaN s) = False"

fun is_nan :: "float \<Rightarrow> bool" where
  "is_nan (NaN s) = True"
| "is_nan (Finite s m) = False"
| "is_nan (Infinity s) = False"

text \<open>The C operator \<open><\<close> on two floats: false as soon as one operand is a NaN.\<close>

fun float_lt :: "float \<Rightarrow> float \<Rightarrow> bool" where
  "float_lt (NaN s) y = False"
| "float_lt (Infinity s) (NaN t) = False"
| "float_lt (Finite s m) (NaN t) = False"
| "float_lt (Infinity s) (Infinity t) = (s \<and> \<not> t)"
| "float_lt (Infinity s) (Finite t n) = s"
| "float_lt (Finite s m) (Infinity t) = (\<not> t)"
| "float_lt (Finite s m) (Finite t n) = (valof (Finite s m) < valof (Finite t n))"

definition float_gt :: "float \<Rightarrow> float \<Rightarrow> bool" where
  "float_gt x y = float_lt y x"

text \<open>Rounding to the nearest integer, ties to even.\<close>

definition round_half_even :: "rat \<Rightarrow> int" where
  "round_half_even x =
     (let f = \<lfloor>x\<rfloor>; d = x - of_int f
      in if d < 1 / 2 then f else if 1 / 2 < d then f + 1 else if even f then f else f + 1)"

function bit_length :: "int \<Rightarrow> int" where
  "bit_length n = (if n \<le> 0 then 0 else 1 + bit_length (n div 2))"
  by pat_completeness auto
termination
  by (relation "measure nat") auto

declare bit_length.simps [simp del]

definition pow2 :: "int \<Rightarrow> rat" where
  "pow2 e = (if 0 \<le> e then 2 ^ nat e else 1 / 2 ^ nat (- e))"

text \<open>
  \<open>ilog2 m\<close> is the exponent \<open>e\<close> with \<open>2 ^ e \<le> m < 2 ^ (e + 1)\<close> of a positive
  rational: the bit lengths of numerator and denominator give it up to one, and a
  comparison decides.
\<close>

definition ilog2 :: "rat \<Rightarrow> int" where
  "ilog2 m =
     (let (a, b) = quotient_of m;
          e = bit_length a - bit_length b
      in if pow2 e \<le> m then e else e - 1)"

text \<open>
  Rounding a non-negative magnitude to binary32, to nearest and ties to even: 24
  significant bits, the smallest exponent -126 (below it the spacing stays \<open>2 ^ -149\<close>,
  the subnormal numbers), overflow to infinity from \<open>2 ^ 128\<close> on.
\<close>

definition float_round :: "bool \<Rightarrow> rat \<Rightarrow> float" where
  "float_round s m =
     (if m = 0 then Finite s 0
      else let e = max (ilog2 m) (- 126);
               q = pow2 (e - 23);
               r = of_int (round_half_even (m / q)) * q
           in if 2 ^ 128 \<le> r then Infinity s else Finite s r)"

text \<open>
  The C operator \<open>+\<close> on two floats, as \<open>total_value += value\<close> computes it: the exact
  sum rounded once. An exact zero sum is \<open>-0.0\<close> only when both operands are negative.
  A NaN operand is the result, the left one first; IEEE 754 leaves the sign of the NaN
  that the sum of opposite infinities gives open, and the model sets it, as the x86
  does. The program prints no sum.
\<close>

fun float_add :: "float \<Rightarrow> float \<Rightarrow> float" where
  "float_add (NaN s) y = NaN s"
| "float_add (Infinity s) (NaN t) = NaN t"
| "float_add (Finite s m) (NaN t) = NaN t"
| "float_add (Infinity s) (Infinity t) = (if s = t then Infinity s else NaN True)"
| "float_add (Infinity s) (Finite t n) = Infinity s"
| "float_add (Finite s m) (Infinity t) = Infinity t"
| "float_add (Finite s m) (Finite t n) =
     (let x = valof (Finite s m) + valof (Finite t n)
      in if x = 0 then Finite (s \<and> t) 0 else float_round (x < 0) \<bar>x\<bar>)"

definition float_of_int :: "int \<Rightarrow> float" where
  "float_of_int i = float_round (i < 0) (of_int \<bar>i\<bar>)"

section \<open>Formatted output\<close>

definition digit_char :: "int \<Rightarrow> char" where
  "digit_char d = char_of (48 + nat d)"

function dec :: "int \<Rightarrow> string" where
  "dec n = (if n < 10 then [digit_char n] else dec (n div 10) @ [digit_char (n mod 10)])"
  by pat_completeness auto
termination
  by (relation "measure nat") auto

declare dec.simps [simp del]

text \<open>
  The conversion \<open>%.2f\<close> of \<open>printf\<close>: the sign, then the magnitude rounded to two
  fractional digits, or \<open>inf\<close> or \<open>nan\<close>. The C standard leaves the rounding of ties to
  the library; the model rounds ties to even.
\<close>

fun fmt_2f :: "float \<Rightarrow> string" where
  "fmt_2f (NaN s) = (if s then ''-nan'' else ''nan'')"
| "fmt_2f (Infinity s) = (if s then ''-inf'' else ''inf'')"
| "fmt_2f (Finite s m) =
     (let n = round_half_even (\<bar>m\<bar> * 100)
      in (if s then ''-'' else '''') @ dec (n div 100) @ ''.''
           @ [digit_char (n div 10 mod 10), digit_char (n mod 10)])"

section \<open>The data of the program\<close>

text \<open>
  \<open>SensorData\<close> is \<open>{ char id[10]; float value; }\<close>. The field \<open>id\<close> holds a
  NUL-terminated string, so at most nine characters.
\<close>

record SensorData =
  id' :: string
  value' :: float

record SensorStats =
  min_limit :: float
  max_limit :: float
  total_value :: float
  max_value :: float
  min_value :: float
  count :: "32 word"

text \<open>A handle is a number; 0 is \<open>NULL\<close>.\<close>

type_synonym handle = nat

record SerialPortInfo =
  port_name :: string
  hSerial :: handle

text \<open>What the program does to the outside, in program order.\<close>

datatype event =
    Stdout string
  | FileAppend string string
  | CloseHandle handle
  | Free string
  | Sleep nat
  | WaitForMultipleObjects nat "handle option list"

section \<open>validate_data\<close>

datatype validation_error = EmptyIdentifier | OutOfRange

text \<open>
  Returns \<open>Inr ()\<close> where the C function returns 1 and \<open>Inl\<close> of the failed check where
  it returns 0, with the line it prints.
\<close>

definition validate_data :: "SensorData \<Rightarrow> (validation_error + unit) \<times> event list" where
  "validate_data sensor =
     (if length (id' sensor) = 0 then
        (Inl EmptyIdentifier, [Stdout ''[ERROR] Sensor ID is empty.\<newline>''])
      else if float_lt (value' sensor) (float_of_int 0)
              \<or> float_gt (value' sensor) (float_of_int 1000) then
        (Inl OutOfRange,
         [Stdout (''[ERROR] Sensor value out of realistic range: ''
                  @ fmt_2f (value' sensor) @ ''\<newline>'')])
      else (Inr (), []))"

section \<open>log_to_csv\<close>

text \<open>
  \<open>can_open\<close> says whether \<open>fopen(filename, "a")\<close> succeeds. The line goes to the file
  in one \<open>fprintf\<close>.
\<close>

definition csv_line :: "string \<Rightarrow> SensorData \<Rightarrow> string" where
  "csv_line port sensor =
     port @ '','' @ id' sensor @ '','' @ fmt_2f (value' sensor) @ ''\<newline>''"

definition log_to_csv :: "bool \<Rightarrow> string \<Rightarrow> string \<Rightarrow> SensorData \<Rightarrow> event list" where
  "log_to_csv can_open filename port sensor =
     (if \<not> can_open then
        [Stdout (''[ERROR] Unable to open file '' @ filename @ '' for logging.\<newline>'')]
      else [FileAppend filename (csv_line port sensor)])"

section \<open>monitor_quality\<close>

text \<open>\<open>count++\<close> on a 32-bit \<open>int\<close>: the word wraps; \<open>sint\<close> reads it.\<close>

definition alert_line :: "SensorData \<Rightarrow> SensorStats \<Rightarrow> string \<Rightarrow> string" where
  "alert_line sensor stats port =
     ''[ALERT] '' @ id' sensor @ '' out of range on '' @ port @ ''! Value: ''
       @ fmt_2f (value' sensor) @ '' (Limits: '' @ fmt_2f (min_limit stats) @ '' - ''
       @ fmt_2f (max_limit stats) @ '')\<newline>''"

definition monitor_quality :: "SensorData \<Rightarrow> SensorStats \<Rightarrow> string \<Rightarrow> SensorStats \<times> event list" where
  "monitor_quality sensor stats port =
     (let s1 = stats\<lparr>total_value := float_add (total_value stats) (value' sensor)\<rparr>;
          s2 = s1\<lparr>count := count s1 + 1\<rparr>;
          s3 = (if float_gt (value' sensor) (max_value s2)
                then s2\<lparr>max_value := value' sensor\<rparr> else s2);
          s4 = (if float_lt (value' sensor) (min_value s3)
                then s3\<lparr>min_value := value' sensor\<rparr> else s3)
      in (s4, if float_lt (value' sensor) (min_limit s4)
                 \<or> float_gt (value' sensor) (max_limit s4)
              then [Stdout (alert_line sensor s4 port)] else []))"

text \<open>The initialiser \<open>{5.0, 25.0, 0.0, -1000.0, 1000.0, 0}\<close> of \<open>read_serial_thread\<close>.\<close>

definition initial_stats :: SensorStats where
  "initial_stats =
     \<lparr>min_limit = Finite False 5, max_limit = Finite False 25,
      total_value = Finite False 0, max_value = Finite True 1000,
      min_value = Finite False 1000, count = 0\<rparr>"

section \<open>sscanf\<close>

text \<open>
  The call \<open>sscanf(buffer, "%s %f", sensor.id, &sensor.value)\<close>, as the GNU C library
  runs it: \<open>%f\<close> gathers the characters that can belong to a number and hands them to
  \<open>strtof\<close>, which converts the longest beginning of them that is a number. White space
  is what \<open>isspace\<close> accepts in the C locale.
\<close>

definition isspace :: "char \<Rightarrow> bool" where
  "isspace c = (c = CHR '' '' \<or> c = CHR 0x09 \<or> c = CHR 0x0A \<or> c = CHR 0x0B
                \<or> c = CHR 0x0C \<or> c = CHR 0x0D)"

definition isdigit :: "char \<Rightarrow> bool" where
  "isdigit c = (48 \<le> (of_char c :: nat) \<and> (of_char c :: nat) \<le> 57)"

definition tolower :: "char \<Rightarrow> char" where
  "tolower c = (if 65 \<le> (of_char c :: nat) \<and> (of_char c :: nat) \<le> 90
                then char_of ((of_char c :: nat) + 32) else c)"

definition isxdigit :: "char \<Rightarrow> bool" where
  "isxdigit c = (isdigit c \<or> (97 \<le> (of_char (tolower c) :: nat) \<and> (of_char (tolower c) :: nat) \<le> 102))"

definition xdigit_val :: "char \<Rightarrow> int" where
  "xdigit_val c = (if isdigit c then int (of_char c) - 48 else int (of_char (tolower c)) - 87)"

definition digits_val :: "int \<Rightarrow> string \<Rightarrow> int" where
  "digits_val base ds = foldl (\<lambda>a c. a * base + xdigit_val c) 0 ds"

definition pow10 :: "int \<Rightarrow> rat" where
  "pow10 e = (if 0 \<le> e then 10 ^ nat e else 1 / 10 ^ nat (- e))"

definition take_sign :: "string \<Rightarrow> bool \<times> string" where
  "take_sign s =
     (case s of [] \<Rightarrow> (False, [])
      | c # r \<Rightarrow> if c = CHR ''-'' then (True, r) else if c = CHR ''+'' then (False, r)
                 else (False, s))"

text \<open>How many characters of the input agree, letter case apart, with a lower-case word.\<close>

fun common_prefix_ci :: "string \<Rightarrow> string \<Rightarrow> nat" where
  "common_prefix_ci (p # ps) (c # cs) =
     (if tolower c = p then Suc (common_prefix_ci ps cs) else 0)"
| "common_prefix_ci [] cs = 0"
| "common_prefix_ci (p # ps) [] = 0"

text \<open>
  An exponent part: the marker (\<open>e\<close> or \<open>p\<close>), an optional sign, decimal digits. Without
  the marker the exponent is 0. A marker with no digit after it is no exponent part: the
  number ends before it, and the exponent is 0 again.
\<close>

definition exponent_part :: "char \<Rightarrow> string \<Rightarrow> int" where
  "exponent_part marker r =
     (case r of [] \<Rightarrow> 0
      | c # t \<Rightarrow>
          if tolower c = marker then
            (let (neg, t1) = take_sign t; ds = takeWhile isdigit t1
             in if ds = [] then 0
                else if neg then - digits_val 10 ds else digits_val 10 ds)
          else 0)"

text \<open>
  Digits with an optional radix point, then an optional exponent part. A decimal number
  has decimal digits and an exponent of ten after \<open>e\<close>; a hexadecimal one (\<open>hex\<close>, the
  input after \<open>0x\<close>) has hexadecimal digits and an exponent of two after \<open>p\<close>, so each
  fractional digit counts four. The sign \<open>s\<close> has been read before. The value is rounded
  to a float once. With no digit at all there is no decimal number; after \<open>0x\<close> the
  number is then the \<open>0\<close> before the \<open>x\<close>.
\<close>

definition scan_digits :: "bool \<Rightarrow> bool \<Rightarrow> string \<Rightarrow> float option" where
  "scan_digits hex s r =
     (let isd = (if hex then isxdigit else isdigit);
          ip = takeWhile isd r;
          r1 = dropWhile isd r;
          point = (case r1 of [] \<Rightarrow> False | c # t \<Rightarrow> c = CHR ''.'');
          fp = (if point then takeWhile isd (tl r1) else []);
          r2 = (if point then dropWhile isd (tl r1) else r1)
      in if ip = [] \<and> fp = [] then (if hex then Some (Finite s 0) else None)
         else Some (float_round s
                (if hex then
                   of_int (digits_val 16 (ip @ fp))
                     * pow2 (exponent_part (CHR ''p'') r2 - 4 * int (length fp))
                 else
                   of_int (digits_val 10 (ip @ fp))
                     * pow10 (exponent_part (CHR ''e'') r2 - int (length fp)))))"

text \<open>
  The conversion \<open>%f\<close> on the characters up to the next white space (no number contains
  white space, so the conversion reads no further). After an optional sign: \<open>inf\<close> in
  any letter case gives an infinity, unless the characters go on as \<open>infinity\<close> does and
  stop short of it, which is a matching failure; \<open>nan\<close> in any letter case gives a NaN,
  and what follows it is left unread; \<open>0x\<close> starts a hexadecimal number, and is a
  matching failure when neither a hexadecimal digit nor a point follows; anything else
  is read as a decimal number. What follows the number is left unread. The sign applies
  to a NaN too.
\<close>

definition scan_float :: "string \<Rightarrow> float option" where
  "scan_float s0 =
     (let (s, r) = take_sign s0
      in case r of [] \<Rightarrow> None
         | c # t \<Rightarrow>
             if tolower c = CHR ''i'' then
               (let k = common_prefix_ci ''infinity'' r
                in if k = 3 \<or> k = 8 then Some (Infinity s) else None)
             else if tolower c = CHR ''n'' then
               (if common_prefix_ci ''nan'' r = 3 then Some (NaN s) else None)
             else if c = CHR ''0'' \<and> (case t of [] \<Rightarrow> False | x # u \<Rightarrow> tolower x = CHR ''x'') then
               (case tl t of [] \<Rightarrow> None
                | d # u \<Rightarrow>
                    if isxdigit d \<or> d = CHR ''.'' then scan_digits True s (tl t) else None)
             else scan_digits False s r)"

text \<open>
  Writing a token of ten or more characters and its terminating NUL into \<open>char id[10]\<close>
  runs past the array: the behaviour is undefined, and the model stops there. The same
  holds for \<open>strcpy\<close> into \<open>char port_name[10]\<close> in \<open>main\<close>.
\<close>

datatype fault = IdOverflow | PortNameOverflow

text \<open>
  The result is the value \<open>sscanf\<close> returns (\<open>EOF\<close> is -1) and the \<open>sensor\<close> it has
  written to. \<open>%s\<close> skips white space and stores the characters up to the next white
  space; the space in the format and \<open>%f\<close> skip white space again.
\<close>

definition sscanf_s_f :: "string \<Rightarrow> SensorData \<Rightarrow> fault + int \<times> SensorData" where
  "sscanf_s_f buffer sensor =
     (let s1 = dropWhile isspace buffer
      in if s1 = [] then Inr (- 1, sensor)
         else let tok = takeWhile (\<lambda>c. \<not> isspace c) s1;
                  s2 = dropWhile (\<lambda>c. \<not> isspace c) s1
              in if 10 < length tok + 1 then Inl IdOverflow
                 else let sensor1 = sensor\<lparr>id' := tok\<rparr>;
                          s3 = dropWhile isspace s2
                      in if s3 = [] then Inr (1, sensor1)
                         else case scan_float (takeWhile (\<lambda>c. \<not> isspace c) s3) of
                                None \<Rightarrow> Inr (1, sensor1)
                              | Some v \<Rightarrow> Inr (2, sensor1\<lparr>value' := v\<rparr>))"

section \<open>read_serial_thread\<close>

text \<open>
  The local variables that live across iterations. \<open>sensor\<close> is not initialised by the
  program, so its first contents are a parameter.
\<close>

record locals =
  sensor :: SensorData
  stats :: SensorStats

text \<open>
  The condition \<open>sscanf(...) == 2 && validate_data(&sensor)\<close>: \<open>validate_data\<close> runs only
  after two conversions.
\<close>

datatype rejection = NotTwoFields int | Invalid validation_error

definition frame_check :: "string \<Rightarrow> SensorData \<Rightarrow> fault + (rejection + unit) \<times> SensorData \<times> event list" where
  "frame_check buffer sensor0 =
     (case sscanf_s_f buffer sensor0 of
        Inl f \<Rightarrow> Inl f
      | Inr (n, sensor1) \<Rightarrow>
          if n = 2 then
            (case validate_data sensor1 of
               (Inl e, out) \<Rightarrow> Inr (Inl (Invalid e), sensor1, out)
             | (Inr u, out) \<Rightarrow> Inr (Inr (), sensor1, out))
          else Inr (Inl (NotTwoFields n), sensor1, []))"

definition reading_line :: "string \<Rightarrow> SensorData \<Rightarrow> string" where
  "reading_line port s =
     ''['' @ port @ ''] Sensor: '' @ id' s @ '', Value: '' @ fmt_2f (value' s) @ ''\<newline>''"

text \<open>
  One iteration whose \<open>ReadFile\<close> succeeded with \<open>bytes\<close> (at most 255 of them): the
  program terminates them with NUL, so the string it scans and prints ends at the first
  NUL among them, if there is one.
\<close>

definition loop_body :: "SerialPortInfo \<Rightarrow> string \<Rightarrow> bool \<Rightarrow> locals \<Rightarrow> fault + locals \<times> event list" where
  "loop_body port_info bytes can_open l =
     (let buffer = takeWhile (\<lambda>c. c \<noteq> CHR 0x00) bytes
      in case frame_check buffer (sensor l) of
           Inl f \<Rightarrow> Inl f
         | Inr (Inr u, sensor1, out) \<Rightarrow>
             (let ev1 = [Stdout (reading_line (port_name port_info) sensor1)];
                  ev2 = log_to_csv can_open ''sensor_data.csv'' (port_name port_info) sensor1;
                  (stats1, ev3) = monitor_quality sensor1 (stats l) (port_name port_info)
              in Inr (\<lparr>sensor = sensor1, stats = stats1\<rparr>, out @ ev1 @ ev2 @ ev3))
         | Inr (Inl r, sensor1, out) \<Rightarrow>
             Inr (l\<lparr>sensor := sensor1\<rparr>,
                  out @ [Stdout (''[ERROR] Invalid data format: '' @ buffer @ ''\<newline>'')]))"

text \<open>
  What the outside answers in one iteration: the bytes \<open>ReadFile\<close> delivered, or
  \<open>None\<close> when it returned false, and whether \<open>sensor_data.csv\<close> can be opened.
\<close>

record answer =
  read_file :: "string option"
  can_open :: bool

datatype thread_end = Blocked locals | Returned int | Undefined fault

text \<open>
  The \<open>while (1)\<close> loop over the answers of the outside. When they are used up the thread
  is blocked in \<open>ReadFile\<close>, with its locals as they are.
\<close>

fun polling_loop :: "SerialPortInfo \<Rightarrow> locals \<Rightarrow> answer list \<Rightarrow> event list \<times> thread_end" where
  "polling_loop port_info l [] = ([], Blocked l)"
| "polling_loop port_info l (a # as) =
     (case read_file a of
        None \<Rightarrow>
          ([Stdout (''[ERROR] Failed to read from port '' @ port_name port_info @ ''\<newline>''),
            CloseHandle (hSerial port_info), Free (port_name port_info)],
           Returned 0)
      | Some bytes \<Rightarrow>
          (case loop_body port_info bytes (can_open a) l of
             Inl f \<Rightarrow> ([], Undefined f)
           | Inr (l1, evs) \<Rightarrow>
               (let (evs1, e) = polling_loop port_info l1 as
                in (evs @ [Sleep 1000] @ evs1, e))))"

definition read_serial_thread :: "SerialPortInfo \<Rightarrow> SensorData \<Rightarrow> answer list \<Rightarrow> event list \<times> thread_end" where
  "read_serial_thread port_info sensor0 as =
     polling_loop port_info \<lparr>sensor = sensor0, stats = initial_stats\<rparr> as"

section \<open>setup_serial and main\<close>

text \<open>
  What the system answers while \<open>setup_serial\<close> runs: the handle \<open>CreateFile\<close> returns
  (\<open>None\<close> for \<open>INVALID_HANDLE_VALUE\<close>), and whether \<open>GetCommState\<close> and \<open>SetCommState\<close>
  succeed.
\<close>

record serial_answer =
  create_file :: "handle option"
  get_comm_state :: bool
  set_comm_state :: bool

definition setup_serial :: "string \<Rightarrow> serial_answer \<Rightarrow> handle \<times> event list" where
  "setup_serial port a =
     (case create_file a of
        None \<Rightarrow> (0, [Stdout (''[ERROR] Unable to open serial port '' @ port @ ''\<newline>'')])
      | Some h \<Rightarrow>
          if \<not> get_comm_state a then
            (0, [Stdout (''[ERROR] Failed to get serial port state '' @ port @ ''\<newline>''),
                 CloseHandle h])
          else if \<not> set_comm_state a then
            (0, [Stdout (''[ERROR] Failed to set serial port state '' @ port @ ''\<newline>''),
                 CloseHandle h])
          else (h, []))"

text \<open>
  The answers for one port: those of \<open>setup_serial\<close>, and the handle \<open>_beginthreadex\<close>
  returns (0 when no thread could be created).
\<close>

record start_answer =
  serial :: serial_answer
  begin_thread :: handle

text \<open>
  The state of \<open>main\<close>: the array \<open>threads\<close>, whose slots are \<open>None\<close> until the program
  assigns them (it never initialises the array), the events so far, and the workers
  running: the \<open>SerialPortInfo\<close> handed to each thread with the thread's handle.
\<close>

record main_state =
  threads :: "handle option list"
  events :: "event list"
  started :: "(SerialPortInfo \<times> handle) list"

fun start_loop :: "nat \<Rightarrow> string list \<Rightarrow> (string \<Rightarrow> start_answer) \<Rightarrow> main_state \<Rightarrow> fault + main_state" where
  "start_loop i [] env st = Inr st"
| "start_loop i (port # ps) env st =
     (if 10 < length port + 1 then Inl PortNameOverflow
      else
        (let (h, evs) = setup_serial port (serial (env port));
             st1 = st\<lparr>events := events st @ evs\<rparr>
         in if h = 0 then start_loop (Suc i) ps env (st1\<lparr>events := events st1 @ [Free port]\<rparr>)
            else
              (let th = begin_thread (env port);
                   st2 = st1\<lparr>threads := (threads st1)[i := Some th]\<rparr>
               in if th = 0 then
                    start_loop (Suc i) ps env
                      (st2\<lparr>events := events st2 @
                         [Stdout (''[ERROR] Unable to create thread for port '' @ port @ ''\<newline>''),
                          CloseHandle h, Free port]\<rparr>)
                  else
                    start_loop (Suc i) ps env
                      (st2\<lparr>started := started st2 @ [(\<lparr>port_name = port, hSerial = h\<rparr>, th)]\<rparr>))))"

definition ports :: "string list" where
  "ports = [''COM3'', ''COM4'', ''COM5'']"

text \<open>
  \<open>main\<close> for a list of ports: the loop, then \<open>WaitForMultipleObjects\<close> on the whole
  array, then the last line. The program itself runs \<open>run_main ports\<close>.
\<close>

definition run_main :: "string list \<Rightarrow> (string \<Rightarrow> start_answer) \<Rightarrow> fault + main_state" where
  "run_main ps env =
     (case start_loop 0 ps env
             \<lparr>threads = replicate (length ps) None, events = [], started = []\<rparr> of
        Inl f \<Rightarrow> Inl f
      | Inr st \<Rightarrow>
          Inr (st\<lparr>events := events st @
                 [WaitForMultipleObjects (length ps) (threads st),
                  Stdout ''All threads finished.\<newline>'']\<rparr>))"

section \<open>Notions of the specification\<close>

text \<open>A value the specification calls valid: a number in \<open>[0, 1000]\<close>.\<close>

fun in_range :: "float \<Rightarrow> bool" where
  "in_range (Finite s m) = (0 \<le> valof (Finite s m) \<and> valof (Finite s m) \<le> 1000)"
| "in_range (Infinity s) = False"
| "in_range (NaN s) = False"

definition valid_reading :: "SensorData \<Rightarrow> bool" where
  "valid_reading r = (id' r \<noteq> [] \<and> in_range (value' r))"

text \<open>
  A magnitude that is a float: rounding leaves it as it is. And the sums of the ever
  longer beginnings of a list, from \<open>a\<close> on.
\<close>

definition representable :: "rat \<Rightarrow> bool" where
  "representable m = (float_round False m = Finite False m)"

fun partial_sums :: "rat \<Rightarrow> rat list \<Rightarrow> rat list" where
  "partial_sums a [] = []"
| "partial_sums a (x # xs) = (a + x) # partial_sums (a + x) xs"

text \<open>Recording readings in order: one call of \<open>monitor_quality\<close> for each.\<close>

fun record_all :: "SensorStats \<Rightarrow> string \<Rightarrow> SensorData list \<Rightarrow> SensorStats" where
  "record_all st port [] = st"
| "record_all st port (r # rs) = record_all (fst (monitor_quality r st port)) port rs"


text \<open>
  The white-space-separated fields of a frame, read off character by character: \<open>cur\<close>
  is the field being read.
\<close>

fun split_ws :: "string \<Rightarrow> string \<Rightarrow> string list" where
  "split_ws cur [] = (if cur = [] then [] else [cur])"
| "split_ws cur (c # cs) =
     (if isspace c then (if cur = [] then split_ws [] cs else cur # split_ws [] cs)
      else split_ws (cur @ [c]) cs)"

definition ws_fields :: "string \<Rightarrow> string list" where
  "ws_fields s = split_ws [] s"

text \<open>
  A field that starts with a number: after an optional sign, \<open>inf\<close> (not going on as
  a part of \<open>infinity\<close>) or \<open>nan\<close> in any letter case, \<open>0x\<close> and a hexadecimal
  digit or a point, a digit, or a point and a digit.
\<close>

definition starts_with_number :: "string \<Rightarrow> bool" where
  "starts_with_number u =
     (case snd (take_sign u) of [] \<Rightarrow> False
      | c # t \<Rightarrow>
          if tolower c = CHR ''i'' then
            common_prefix_ci ''infinity'' (c # t) = 3 \<or> common_prefix_ci ''infinity'' (c # t) = 8
          else if tolower c = CHR ''n'' then common_prefix_ci ''nan'' (c # t) = 3
          else if c = CHR ''0'' \<and> (case t of [] \<Rightarrow> False | x # u \<Rightarrow> tolower x = CHR ''x'') then
            (case tl t of [] \<Rightarrow> False | d # u \<Rightarrow> isxdigit d \<or> d = CHR ''.'')
          else isdigit c \<or> (c = CHR ''.'' \<and> (case t of [] \<Rightarrow> False | d # u \<Rightarrow> isdigit d)))"

text \<open>The comma-separated fields of a record, empty ones included.\<close>

fun split_on :: "char \<Rightarrow> string \<Rightarrow> string \<Rightarrow> string list" where
  "split_on sep cur [] = [cur]"
| "split_on sep cur (c # cs) =
     (if c = sep then cur # split_on sep [] cs else split_on sep (cur @ [c]) cs)"

definition csv_fields :: "string \<Rightarrow> string list" where
  "csv_fields line = split_on (CHR '','') [] line"

text \<open>
  A number written with two fractional digits: an optional minus sign, at least one
  digit, the point, two digits.
\<close>

definition two_fraction_digits :: "string \<Rightarrow> bool" where
  "two_fraction_digits s =
     (case rev s of
        d2 # d1 # pt # ip \<Rightarrow>
          isdigit d2 \<and> isdigit d1 \<and> pt = CHR ''.''
          \<and> (let ds = (case rev ip of [] \<Rightarrow> []
                        | c # r \<Rightarrow> if c = CHR ''-'' then r else c # r)
             in ds \<noteq> [] \<and> list_all isdigit ds)
      | _ \<Rightarrow> False)"

text \<open>Kinds of events.\<close>

fun is_append :: "event \<Rightarrow> bool" where
  "is_append (FileAppend f s) = True"
| "is_append e = False"

fun is_close :: "event \<Rightarrow> bool" where
  "is_close (CloseHandle h) = True"
| "is_close e = False"

fun is_alert :: "event \<Rightarrow> bool" where
  "is_alert (Stdout s) = (take 8 s = ''[ALERT] '')"
| "is_alert e = False"

text \<open>
  The order the specification gives to the recording step: the alert of a reading is out
  before the reading goes to the file, so no alert follows the first append.
\<close>

definition no_alert_after_append :: "event list \<Rightarrow> bool" where
  "no_alert_after_append evs =
     list_all (\<lambda>e. \<not> is_alert e) (dropWhile (\<lambda>e. \<not> is_append e) evs)"

text \<open>
  The handles the specification has the supervisor wait on: those of the threads
  started, and no other array slot.
\<close>

definition waits_on_started :: "main_state \<Rightarrow> bool" where
  "waits_on_started st =
     (WaitForMultipleObjects (length (started st)) (map (\<lambda>w. Some (snd w)) (started st))
        \<in> set (events st))"

text \<open>
  A port starts when \<open>setup_serial\<close> returns a handle and \<open>_beginthreadex\<close> a thread;
  \<open>worker_of\<close> is what then runs, and \<open>slot_of\<close> is what the loop of \<open>main\<close> leaves
  in the port's slot of \<open>threads\<close>.
\<close>

definition startable :: "(string \<Rightarrow> start_answer) \<Rightarrow> string \<Rightarrow> bool" where
  "startable env port =
     (fst (setup_serial port (serial (env port))) \<noteq> 0 \<and> begin_thread (env port) \<noteq> 0)"

definition worker_of :: "(string \<Rightarrow> start_answer) \<Rightarrow> string \<Rightarrow> SerialPortInfo \<times> handle" where
  "worker_of env port =
     (\<lparr>port_name = port, hSerial = fst (setup_serial port (serial (env port)))\<rparr>,
      begin_thread (env port))"

definition slot_of :: "(string \<Rightarrow> start_answer) \<Rightarrow> string \<Rightarrow> handle option" where
  "slot_of env port =
     (if fst (setup_serial port (serial (env port))) = 0 then None
      else Some (begin_thread (env port)))"

fun is_wait :: "event \<Rightarrow> bool" where
  "is_wait (WaitForMultipleObjects n hs) = True"
| "is_wait e = False"

section \<open>Comparisons and constants\<close>


lemma float_lt_finite:
  "is_finite x \<Longrightarrow> is_finite y \<Longrightarrow> float_lt x y = (valof x < valof y)"
  by (cases x; cases y) simp_all

lemma float_of_int_0: "float_of_int 0 = Finite False 0"
  by code_simp

lemma float_of_int_1000: "float_of_int 1000 = Finite False 1000"
  by code_simp

lemma in_range_finite: "in_range v \<Longrightarrow> is_finite v \<and> 0 \<le> valof v \<and> valof v \<le> 1000"
  by (cases v) simp_all

section \<open>monitor_quality, field by field\<close>


lemma monitor_quality_count:
  "count (fst (monitor_quality r st p)) = count st + 1"
  by (simp add: monitor_quality_def Let_def)

lemma monitor_quality_total:
  "total_value (fst (monitor_quality r st p)) = float_add (total_value st) (value' r)"
  by (simp add: monitor_quality_def Let_def)

lemma monitor_quality_max:
  "max_value (fst (monitor_quality r st p)) =
     (if float_gt (value' r) (max_value st) then value' r else max_value st)"
  by (simp add: monitor_quality_def Let_def)

lemma monitor_quality_min:
  "min_value (fst (monitor_quality r st p)) =
     (if float_lt (value' r) (min_value st) then value' r else min_value st)"
  by (simp add: monitor_quality_def Let_def)

lemma monitor_quality_alert:
  "snd (monitor_quality r st p) =
     (if float_lt (value' r) (min_limit st) \<or> float_gt (value' r) (max_limit st)
      then [Stdout (alert_line r (fst (monitor_quality r st p)) p)] else [])"
  by (simp add: monitor_quality_def Let_def)


section \<open>Recording a sequence of readings\<close>

lemma record_all_count:
  "count (record_all st p rs) = count st + of_nat (length rs)"
  by (induction rs arbitrary: st) (simp_all add: monitor_quality_count)

lemma record_all_total:
  "total_value (record_all st p rs) = foldl float_add (total_value st) (map value' rs)"
  by (induction rs arbitrary: st) (simp_all add: monitor_quality_total)


lemma record_all_min:
  "is_finite (min_value st) \<Longrightarrow> \<forall>r\<in>set rs. is_finite (value' r) \<Longrightarrow>
     is_finite (min_value (record_all st p rs)) \<and>
     valof (min_value (record_all st p rs)) =
       fold min (map (\<lambda>r. valof (value' r)) rs) (valof (min_value st))"
proof (induction rs arbitrary: st)
  case Nil
  then show ?case by simp
next
  case (Cons r rs)
  let ?st1 = "fst (monitor_quality r st p)"
  have fin: "is_finite (min_value ?st1)"
    using Cons.prems by (simp add: monitor_quality_min)
  have v: "valof (min_value ?st1) = min (valof (value' r)) (valof (min_value st))"
    using Cons.prems by (auto simp: monitor_quality_min float_lt_finite)
  from Cons.IH [OF fin] Cons.prems v show ?case by simp
qed

lemma record_all_max:
  "is_finite (max_value st) \<Longrightarrow> \<forall>r\<in>set rs. is_finite (value' r) \<Longrightarrow>
     is_finite (max_value (record_all st p rs)) \<and>
     valof (max_value (record_all st p rs)) =
       fold max (map (\<lambda>r. valof (value' r)) rs) (valof (max_value st))"
proof (induction rs arbitrary: st)
  case Nil
  then show ?case by simp
next
  case (Cons r rs)
  let ?st1 = "fst (monitor_quality r st p)"
  have fin: "is_finite (max_value ?st1)"
    using Cons.prems by (simp add: monitor_quality_max)
  have v: "valof (max_value ?st1) = max (valof (value' r)) (valof (max_value st))"
    using Cons.prems by (auto simp: monitor_quality_max float_gt_def float_lt_finite)
  from Cons.IH [OF fin] Cons.prems v show ?case by simp
qed

lemma fold_min_Min:
  fixes xs :: "rat list"
  assumes ne: "xs \<noteq> []" and le: "\<forall>x\<in>set xs. x \<le> a"
  shows "fold min xs a = Min (set xs)"
proof -
  have "fold min xs a = Min (set (a # xs))"
    using Min.set_eq_fold [of a xs] by simp
  also have "\<dots> = min a (Min (set xs))"
    using ne by simp
  also have "\<dots> = Min (set xs)"
    using ne le by (simp add: min_absorb2)
  finally show ?thesis .
qed

lemma fold_max_Max:
  fixes xs :: "rat list"
  assumes ne: "xs \<noteq> []" and le: "\<forall>x\<in>set xs. a \<le> x"
  shows "fold max xs a = Max (set xs)"
proof -
  have "fold max xs a = Max (set (a # xs))"
    using Max.set_eq_fold [of a xs] by simp
  also have "\<dots> = max a (Max (set xs))"
    using ne by simp
  also have "\<dots> = Max (set xs)"
    using ne le by (simp add: max_absorb2)
  finally show ?thesis .
qed

lemma sint_count:
  "n < 2 ^ 31 \<Longrightarrow> sint (of_nat n :: 32 word) = int n"
  by (simp add: signed_of_nat signed_take_bit_int_eq_self)

lemma float_round_exact:
  assumes "representable m"
  shows "float_round s m = Finite s m"
  using assms by (auto simp: representable_def float_round_def Let_def split: if_splits)

lemma float_add_exact:
  assumes "0 \<le> a" "in_range v" "representable (a + valof v)"
  shows "float_add (Finite False a) v = Finite False (a + valof v)"
proof -
  from assms(2) obtain t n where v: "v = Finite t n"
    by (cases v) auto
  define w where "w = valof v"
  have w: "0 \<le> w"
    using in_range_finite [OF assms(2)] by (simp add: w_def)
  have fa: "float_add (Finite False a) v
              = (if a + w = 0 then Finite (False \<and> t) 0 else float_round (a + w < 0) \<bar>a + w\<bar>)"
    unfolding v w_def by (simp add: Let_def)
  show ?thesis
  proof (cases "a + w = 0")
    case True
    then show ?thesis using fa by (simp add: w_def)
  next
    case False
    have "float_round False (a + w) = Finite False (a + w)"
      using assms(3) by (simp only: float_round_exact w_def)
    moreover have "0 \<le> a + w"
      using assms(1) w by simp
    ultimately show ?thesis
      using fa False by (simp add: w_def)
  qed
qed

lemma foldl_float_add_exact:
  "0 \<le> a \<Longrightarrow> \<forall>r\<in>set rs. in_range (value' r) \<Longrightarrow>
     list_all representable (partial_sums a (map (\<lambda>r. valof (value' r)) rs)) \<Longrightarrow>
     foldl float_add (Finite False a) (map value' rs)
       = Finite False (a + sum_list (map (\<lambda>r. valof (value' r)) rs))"
proof (induction rs arbitrary: a)
  case Nil
  then show ?case by simp
next
  case (Cons r rs)
  have v: "in_range (value' r)" using Cons.prems(2) by simp
  have rep: "representable (a + valof (value' r))" using Cons.prems(3) by simp
  have step: "float_add (Finite False a) (value' r) = Finite False (a + valof (value' r))"
    using float_add_exact [OF Cons.prems(1) v rep] .
  have nn: "0 \<le> a + valof (value' r)"
    using Cons.prems(1) in_range_finite [OF v] by simp
  have "foldl float_add (Finite False (a + valof (value' r))) (map value' rs)
          = Finite False (a + valof (value' r) + sum_list (map (\<lambda>r. valof (value' r)) rs))"
    using Cons.IH [OF nn] Cons.prems(2,3) by simp
  then show ?case
    using step by (simp add: add.assoc)
qed

lemma representable_examples: "list_all representable (partial_sums 0 [45 / 2, 30])"
  by code_simp

text \<open>
  C3, as the code has it. After fewer than \<open>2 ^ 31\<close> valid readings, at least one,
  recorded into the initial statistics: \<open>count\<close> is their number, \<open>min_value\<close> and
  \<open>max_value\<close> are the least and the greatest of their values, and \<open>total_value\<close> is the
  running single-precision total, each addition rounded to the nearest float. It is the
  sum of the values when every partial sum is a float.
\<close>

theorem statistics_after_recording:
  assumes ne: "rs \<noteq> []"
    and valid: "\<forall>r\<in>set rs. valid_reading r"
    and len: "length rs < 2 ^ 31"
  shows "sint (count (record_all initial_stats p rs)) = int (length rs)
       \<and> total_value (record_all initial_stats p rs)
           = foldl float_add (Finite False 0) (map value' rs)
       \<and> is_finite (min_value (record_all initial_stats p rs))
       \<and> valof (min_value (record_all initial_stats p rs))
           = Min ((\<lambda>r. valof (value' r)) ` set rs)
       \<and> is_finite (max_value (record_all initial_stats p rs))
       \<and> valof (max_value (record_all initial_stats p rs))
           = Max ((\<lambda>r. valof (value' r)) ` set rs)
       \<and> (list_all representable (partial_sums 0 (map (\<lambda>r. valof (value' r)) rs)) \<longrightarrow>
            total_value (record_all initial_stats p rs)
              = Finite False (sum_list (map (\<lambda>r. valof (value' r)) rs)))"
proof -
  let ?vs = "map (\<lambda>r. valof (value' r)) rs"
  have fin: "\<forall>r\<in>set rs. is_finite (value' r)"
    using valid by (simp add: valid_reading_def in_range_finite)
  have lo: "\<forall>x\<in>set ?vs. - 1000 \<le> x" and hi: "\<forall>x\<in>set ?vs. x \<le> 1000"
    using valid by (force simp: valid_reading_def dest: in_range_finite)+
  have vne: "?vs \<noteq> []"
    using ne by simp
  have c: "sint (count (record_all initial_stats p rs)) = int (length rs)"
    using len by (simp add: record_all_count initial_stats_def sint_count)
  have t: "total_value (record_all initial_stats p rs)
             = foldl float_add (Finite False 0) (map value' rs)"
    by (simp add: record_all_total initial_stats_def)
  have mn: "is_finite (min_value (record_all initial_stats p rs)) \<and>
            valof (min_value (record_all initial_stats p rs)) = fold min ?vs 1000"
    using record_all_min [of initial_stats rs p] fin by (simp add: initial_stats_def)
  have mx: "is_finite (max_value (record_all initial_stats p rs)) \<and>
            valof (max_value (record_all initial_stats p rs)) = fold max ?vs (- 1000)"
    using record_all_max [of initial_stats rs p] fin by (simp add: initial_stats_def)
  have "fold min ?vs 1000 = Min (set ?vs)"
    using vne hi by (rule fold_min_Min)
  moreover have "fold max ?vs (- 1000) = Max (set ?vs)"
    using vne lo by (rule fold_max_Max)
  moreover have "total_value (record_all initial_stats p rs)
                   = Finite False (sum_list (map (\<lambda>r. valof (value' r)) rs))"
    if "list_all representable (partial_sums 0 (map (\<lambda>r. valof (value' r)) rs))"
    using foldl_float_add_exact [of 0 rs] that valid t by (simp add: valid_reading_def)
  ultimately show ?thesis
    using c t mn mx by simp
qed

theorem statistics_after_recording_witness:
  "sint (count (record_all initial_stats ''COM3''
       [\<lparr>id' = ''TEMP'', value' = Finite False (45 / 2)\<rparr>,
        \<lparr>id' = ''TEMP'', value' = Finite False 30\<rparr>])) = 2
   \<and> valof (min_value (record_all initial_stats ''COM3''
       [\<lparr>id' = ''TEMP'', value' = Finite False (45 / 2)\<rparr>,
        \<lparr>id' = ''TEMP'', value' = Finite False 30\<rparr>])) = 45 / 2
   \<and> valof (max_value (record_all initial_stats ''COM3''
       [\<lparr>id' = ''TEMP'', value' = Finite False (45 / 2)\<rparr>,
        \<lparr>id' = ''TEMP'', value' = Finite False 30\<rparr>])) = 30
   \<and> total_value (record_all initial_stats ''COM3''
       [\<lparr>id' = ''TEMP'', value' = Finite False (45 / 2)\<rparr>,
        \<lparr>id' = ''TEMP'', value' = Finite False 30\<rparr>]) = Finite False (105 / 2)"
proof -
  let ?rs = "[\<lparr>id' = ''TEMP'', value' = Finite False (45 / 2)\<rparr>,
              \<lparr>id' = ''TEMP'', value' = Finite False 30\<rparr>]"
  have a: "?rs \<noteq> []" by simp
  have b: "\<forall>r\<in>set ?rs. valid_reading r" by (simp add: valid_reading_def)
  have c: "length ?rs < 2 ^ 31" by simp
  have d: "list_all representable (partial_sums 0 (map (\<lambda>r. valof (value' r)) ?rs))"
    using representable_examples by simp
  have e: "int (length ?rs) = 2" "Min ((\<lambda>r. valof (value' r)) ` set ?rs) = 45 / 2"
    "Max ((\<lambda>r. valof (value' r)) ` set ?rs) = 30"
    "sum_list (map (\<lambda>r. valof (value' r)) ?rs) = 105 / 2"
    by simp_all
  show ?thesis
    using statistics_after_recording [OF a b c, of "''COM3''"] d unfolding e by blast
qed

text \<open>
  C3 as the specification words it fails twice. The total of 1000 and \<open>2 ^ -20\<close>
  (both floats, both valid) is 1000, not their sum: the sum is no float and rounds. And
  after \<open>2 ^ 31\<close> readings the 32-bit \<open>count\<close> has wrapped to \<open>- 2 ^ 31\<close>.
\<close>

lemma float_add_rounds:
  "float_add (float_add (Finite False 0) (Finite False 1000)) (Finite False (1 / 1048576))
     = Finite False 1000"
  by code_simp

lemma total_rounds:
  "total_value (record_all initial_stats ''COM3''
       [\<lparr>id' = ''TEMP'', value' = Finite False 1000\<rparr>,
        \<lparr>id' = ''TEMP'', value' = Finite False (1 / 1048576)\<rparr>]) = Finite False 1000"
  unfolding record_all_total using float_add_rounds by (simp add: initial_stats_def)

lemma count_wraps:
  "sint (count (record_all initial_stats ''COM3''
        (replicate 2147483648 \<lparr>id' = ''TEMP'', value' = Finite False 1\<rparr>))) = - 2147483648"
  unfolding record_all_count length_replicate by (simp add: initial_stats_def)

theorem exact_sum_and_count_counterexample:
  "valid_reading \<lparr>id' = ''TEMP'', value' = Finite False 1000\<rparr>
   \<and> valid_reading \<lparr>id' = ''TEMP'', value' = Finite False (1 / 1048576)\<rparr>
   \<and> valof (total_value (record_all initial_stats ''COM3''
        [\<lparr>id' = ''TEMP'', value' = Finite False 1000\<rparr>,
         \<lparr>id' = ''TEMP'', value' = Finite False (1 / 1048576)\<rparr>]))
       \<noteq> 1000 + 1 / 1048576
   \<and> valid_reading \<lparr>id' = ''TEMP'', value' = Finite False 1\<rparr>
   \<and> sint (count (record_all initial_stats ''COM3''
        (replicate 2147483648 \<lparr>id' = ''TEMP'', value' = Finite False 1\<rparr>)))
       \<noteq> int (length (replicate 2147483648 \<lparr>id' = ''TEMP'', value' = Finite False 1\<rparr>))"
  unfolding total_rounds count_wraps length_replicate
  by (simp add: valid_reading_def)

section \<open>validate_data, case by case\<close>

lemma validate_data_cases:
  "validate_data s =
     (if id' s = [] then (Inl EmptyIdentifier, [Stdout ''[ERROR] Sensor ID is empty.\<newline>''])
      else if float_lt (value' s) (Finite False 0) \<or> float_lt (Finite False 1000) (value' s)
      then (Inl OutOfRange,
            [Stdout (''[ERROR] Sensor value out of realistic range: ''
                     @ fmt_2f (value' s) @ ''\<newline>'')])
      else (Inr (), []))"
  by (simp add: validate_data_def float_of_int_0 float_of_int_1000 float_gt_def)

lemma not_below_above:
  "(\<not> float_lt v (Finite False 0) \<and> \<not> float_lt (Finite False 1000) v) = (is_nan v \<or> in_range v)"
  by (cases v) auto

lemma validate_data_accepts:
  "fst (validate_data s) = Inr () \<longleftrightarrow> id' s \<noteq> [] \<and> (is_nan (value' s) \<or> in_range (value' s))"
  using not_below_above [of "value' s"] by (auto simp: validate_data_cases)

lemma validate_data_accepts_out:
  "validate_data s = (Inr u, out) \<Longrightarrow> out = []"
  by (auto simp: validate_data_cases split: if_splits)

lemma validate_data_out:
  "e \<in> set (snd (validate_data s)) \<Longrightarrow> \<not> is_append e \<and> \<not> is_alert e \<and> \<not> is_close e"
  by (auto simp: validate_data_cases split: if_splits)

section \<open>sscanf and the fields of a frame\<close>

text \<open>
  \<open>sscanf\<close> reads the first two white-space-separated fields of the buffer: the first
  goes to \<open>id\<close> as it is, the second is converted as far as it is a number. What
  follows is not looked at.
\<close>

lemma split_ws_run:
  "\<forall>c\<in>set a. \<not> isspace c \<Longrightarrow> b = [] \<or> isspace (hd b) \<Longrightarrow>
     split_ws cur (a @ b) = (if cur @ a = [] then split_ws [] b else (cur @ a) # split_ws [] b)"
proof (induction a arbitrary: cur)
  case Nil
  then show ?case by (cases b) auto
next
  case (Cons c a)
  then show ?case by simp
qed

lemma split_ws_skip: "split_ws [] (dropWhile isspace s) = split_ws [] s"
  by (induction s) simp_all

lemma dropWhile_not_head:
  "dropWhile P s = [] \<or> \<not> P (hd (dropWhile P s))"
  by (metis hd_dropWhile)

lemma fields_Nil:
  assumes "dropWhile isspace s = []"
  shows "ws_fields s = []"
proof -
  have "ws_fields s = split_ws [] (dropWhile isspace s)"
    by (simp only: ws_fields_def split_ws_skip)
  then show ?thesis
    by (simp add: assms del: dropWhile_eq_Nil_conv)
qed

lemma fields_Cons:
  assumes ne: "dropWhile isspace s \<noteq> []"
  shows "ws_fields s = takeWhile (\<lambda>c. \<not> isspace c) (dropWhile isspace s)
                      # ws_fields (dropWhile (\<lambda>c. \<not> isspace c) (dropWhile isspace s))"
proof -
  let ?s1 = "dropWhile isspace s"
  let ?a = "takeWhile (\<lambda>c. \<not> isspace c) ?s1"
  let ?b = "dropWhile (\<lambda>c. \<not> isspace c) ?s1"
  have a: "\<forall>c\<in>set ?a. \<not> isspace c"
    by (auto dest: set_takeWhileD)
  have b: "?b = [] \<or> isspace (hd ?b)"
    using dropWhile_not_head [of "\<lambda>c. \<not> isspace c" ?s1] by simp
  have "\<not> isspace (hd ?s1)"
    using dropWhile_not_head [of isspace s] ne by blast
  with ne have ane: "?a \<noteq> []"
    by (cases ?s1) auto
  have "ws_fields s = split_ws [] ?s1"
    by (simp only: ws_fields_def split_ws_skip)
  also have "\<dots> = split_ws [] (?a @ ?b)"
    by (simp only: takeWhile_dropWhile_id)
  also have "\<dots> = ?a # split_ws [] ?b"
    using split_ws_run [OF a b, of "[]"] ane by simp
  finally show ?thesis
    by (simp only: ws_fields_def)
qed

lemma sscanf_fields:
  "sscanf_s_f buffer s0 =
     (case ws_fields buffer of
        [] \<Rightarrow> Inr (- 1, s0)
      | t # rest \<Rightarrow>
          if 10 \<le> length t then Inl IdOverflow
          else (case rest of
                  [] \<Rightarrow> Inr (1, s0\<lparr>id' := t\<rparr>)
                | u # ws \<Rightarrow>
                    (case scan_float u of
                       None \<Rightarrow> Inr (1, s0\<lparr>id' := t\<rparr>)
                     | Some v \<Rightarrow> Inr (2, s0\<lparr>id' := t, value' := v\<rparr>))))"
proof -
  let ?s1 = "dropWhile isspace buffer"
  let ?s2 = "dropWhile (\<lambda>c. \<not> isspace c) ?s1"
  let ?s3 = "dropWhile isspace ?s2"
  show ?thesis
  proof (cases "?s1 = []")
    case True
    then show ?thesis
      using fields_Nil [OF True]
      by (simp add: sscanf_s_f_def Let_def del: dropWhile_eq_Nil_conv)
  next
    case s1: False
    note f1 = fields_Cons [OF s1]
    show ?thesis
    proof (cases "?s3 = []")
      case True
      show ?thesis
        using s1 f1 True fields_Nil [OF True]
        by (simp add: sscanf_s_f_def Let_def del: dropWhile_eq_Nil_conv)
    next
      case False
      show ?thesis
        using s1 f1 False fields_Cons [OF False]
        by (simp add: sscanf_s_f_def Let_def del: dropWhile_eq_Nil_conv split: option.split)
    qed
  qed
qed

lemma split_ws_tokens:
  "t \<in> set (split_ws cur s) \<Longrightarrow> \<forall>c\<in>set cur. \<not> isspace c \<Longrightarrow>
     t \<noteq> [] \<and> (\<forall>c\<in>set t. \<not> isspace c)"
proof (induction s arbitrary: cur)
  case Nil
  then show ?case by (auto split: if_splits)
next
  case (Cons c s)
  show ?case
  proof (cases "isspace c")
    case True
    with Cons.prems have "t = cur \<and> cur \<noteq> [] \<or> t \<in> set (split_ws [] s)"
      by (auto split: if_splits)
    then show ?thesis
      using Cons.IH [of "[]"] Cons.prems(2) by auto
  next
    case False
    with Cons.prems have "t \<in> set (split_ws (cur @ [c]) s)" by simp
    then show ?thesis
      using Cons.IH [of "cur @ [c]"] Cons.prems(2) False by auto
  qed
qed

lemma ws_fields_tokens:
  "t \<in> set (ws_fields s) \<Longrightarrow> t \<noteq> [] \<and> (\<forall>c\<in>set t. \<not> isspace c)"
  using split_ws_tokens [of t "[]" s] by (simp add: ws_fields_def)

lemma frame_check_fields:
  "frame_check buffer s0 =
     (case ws_fields buffer of
        [] \<Rightarrow> Inr (Inl (NotTwoFields (- 1)), s0, [])
      | t # rest \<Rightarrow>
          if 10 \<le> length t then Inl IdOverflow
          else (case rest of
                  [] \<Rightarrow> Inr (Inl (NotTwoFields 1), s0\<lparr>id' := t\<rparr>, [])
                | u # ws \<Rightarrow>
                    (case scan_float u of
                       None \<Rightarrow> Inr (Inl (NotTwoFields 1), s0\<lparr>id' := t\<rparr>, [])
                     | Some v \<Rightarrow>
                         if is_nan v \<or> in_range v
                         then Inr (Inr (), s0\<lparr>id' := t, value' := v\<rparr>, [])
                         else Inr (Inl (Invalid OutOfRange), s0\<lparr>id' := t, value' := v\<rparr>,
                                   [Stdout (''[ERROR] Sensor value out of realistic range: ''
                                            @ fmt_2f v @ ''\<newline>'')]))))"
proof (cases "ws_fields buffer")
  case Nil
  then show ?thesis
    by (simp add: frame_check_def sscanf_fields)
next
  case (Cons t rest)
  then have t: "t \<noteq> []"
    using ws_fields_tokens [of t buffer] by simp
  show ?thesis
  proof (cases rest)
    case Nil
    with Cons show ?thesis
      by (simp add: frame_check_def sscanf_fields)
  next
    case (Cons u ws)
    show ?thesis
    proof (cases "scan_float u")
      case None
      with Cons \<open>ws_fields buffer = t # rest\<close> show ?thesis
        by (simp add: frame_check_def sscanf_fields)
    next
      case (Some v)
      with Cons \<open>ws_fields buffer = t # rest\<close> t not_below_above [of v] show ?thesis
        by (auto simp: frame_check_def sscanf_fields validate_data_cases)
    qed
  qed
qed

section \<open>The conversion of the second field\<close>

text \<open>
  \<open>%f\<close> fails to convert exactly the fields that do not start with a number. And what
  follows a decimal number without exponent is left unread: \<open>sn\<close> is the sign, \<open>ip\<close> the
  digits before the point, \<open>fpart\<close> the point with the digits after it, and \<open>j\<close> the
  rest of the field, which starts with no character that could carry the number on.
\<close>

lemma isdigit_point: "\<not> isdigit (CHR ''.'')"
  by (simp add: isdigit_def)

lemma scan_digits_decimal_None:
  "(scan_digits False s (c # t) = None)
     = (\<not> (isdigit c \<or> (c = CHR ''.'' \<and> (case t of [] \<Rightarrow> False | d # u \<Rightarrow> isdigit d))))"
  by (cases t) (auto simp: scan_digits_def Let_def isdigit_point)

lemma scan_digits_hex_Some: "scan_digits True s r \<noteq> None"
  by (simp add: scan_digits_def Let_def)

lemma scan_float_None_iff: "(scan_float u = None) = (\<not> starts_with_number u)"
proof -
  obtain s r where ts: "take_sign u = (s, r)" by (cases "take_sign u") auto
  show ?thesis
  proof (cases r)
    case Nil
    with ts show ?thesis by (simp add: scan_float_def starts_with_number_def)
  next
    case (Cons c t)
    with ts show ?thesis
      using scan_digits_decimal_None [of s c t] scan_digits_hex_Some [of s "tl t"]
      by (auto simp: scan_float_def starts_with_number_def Let_def split: list.splits)
  qed
qed

lemma scan_float_Some:
  "starts_with_number u \<Longrightarrow> \<exists>v. scan_float u = Some v"
  using scan_float_None_iff [of u] by auto

lemma takeWhile_then:
  assumes "\<forall>c\<in>set a. P c" "j = [] \<or> \<not> P (hd j)"
  shows "takeWhile P (a @ j) = a" "dropWhile P (a @ j) = j"
  using assms by (cases j; simp)+

lemma exponent_part_none:
  "j = [] \<or> tolower (hd j) \<noteq> m \<Longrightarrow> exponent_part m j = 0"
  by (cases j) (auto simp: exponent_part_def)

lemma exponent_part_Nil: "exponent_part m [] = 0"
  by (simp add: exponent_part_def)

lemma scan_digits_rest:
  assumes ip: "\<forall>c\<in>set ip. isdigit c"
    and fpart: "fpart = [] \<or> (\<exists>fp. fpart = CHR ''.'' # fp \<and> (\<forall>c\<in>set fp. isdigit c))"
    and j: "j = [] \<or> (\<not> isdigit (hd j) \<and> hd j \<noteq> CHR ''.'' \<and> tolower (hd j) \<noteq> CHR ''e'')"
  shows "scan_digits False s (ip @ fpart @ j) = scan_digits False s (ip @ fpart)"
proof -
  have jd: "j = [] \<or> \<not> isdigit (hd j)" using j by auto
  have je: "exponent_part (CHR ''e'') j = 0"
    using j by (auto intro: exponent_part_none)
  have jp: "(case j of [] \<Rightarrow> False | c # t \<Rightarrow> c = CHR ''.'') = False"
    using j by (cases j) auto
  from fpart show ?thesis
  proof
    assume f: "fpart = []"
    have l: "takeWhile isdigit (ip @ j) = ip" "dropWhile isdigit (ip @ j) = j"
      using takeWhile_then [OF ip jd] by simp_all
    have r: "takeWhile isdigit ip = ip" "dropWhile isdigit ip = []"
      using ip by (simp_all add: takeWhile_eq_all_conv)
    show ?thesis
      unfolding f by (simp add: scan_digits_def Let_def l r je jp exponent_part_Nil)
  next
    assume "\<exists>fp. fpart = CHR ''.'' # fp \<and> (\<forall>c\<in>set fp. isdigit c)"
    then obtain fp where f: "fpart = CHR ''.'' # fp" and fp: "\<forall>c\<in>set fp. isdigit c"
      by blast
    have pj: "CHR ''.'' # fp @ j = [] \<or> \<not> isdigit (hd (CHR ''.'' # fp @ j))"
      by (simp add: isdigit_point)
    have l: "takeWhile isdigit (ip @ CHR ''.'' # fp @ j) = ip"
            "dropWhile isdigit (ip @ CHR ''.'' # fp @ j) = CHR ''.'' # fp @ j"
      using takeWhile_then [OF ip pj] by simp_all
    have p0: "CHR ''.'' # fp = [] \<or> \<not> isdigit (hd (CHR ''.'' # fp))"
      by (simp add: isdigit_point)
    have r: "takeWhile isdigit (ip @ CHR ''.'' # fp) = ip"
            "dropWhile isdigit (ip @ CHR ''.'' # fp) = CHR ''.'' # fp"
      using takeWhile_then [OF ip p0] by simp_all
    have l2: "takeWhile isdigit (fp @ j) = fp" "dropWhile isdigit (fp @ j) = j"
      using takeWhile_then [OF fp jd] by simp_all
    have r2: "takeWhile isdigit fp = fp" "dropWhile isdigit fp = []"
      using fp by (simp_all add: takeWhile_eq_all_conv)
    show ?thesis
      unfolding f by (simp add: scan_digits_def Let_def l r l2 r2 je exponent_part_Nil)
  qed
qed

lemma isdigit_not_letter:
  "isdigit c \<Longrightarrow> tolower c = c \<and> c \<noteq> CHR ''i'' \<and> c \<noteq> CHR ''n'' \<and> c \<noteq> CHR ''x''
     \<and> c \<noteq> CHR ''-'' \<and> c \<noteq> CHR ''+''"
  by (auto simp: isdigit_def tolower_def)

lemma scan_float_rest:
  assumes sn: "sn = [] \<or> sn = ''+'' \<or> sn = ''-''"
    and ne: "ip \<noteq> []"
    and ip: "\<forall>c\<in>set ip. isdigit c"
    and fpart: "fpart = [] \<or> (\<exists>fp. fpart = CHR ''.'' # fp \<and> (\<forall>c\<in>set fp. isdigit c))"
    and j: "j = [] \<or> (\<not> isdigit (hd j) \<and> hd j \<noteq> CHR ''.'' \<and> tolower (hd j) \<noteq> CHR ''e''
                        \<and> tolower (hd j) \<noteq> CHR ''x'')"
  shows "scan_float (sn @ ip @ fpart @ j) = scan_float (sn @ ip @ fpart)"
proof -
  obtain c t where ipc: "ip = c # t" using ne by (cases ip) auto
  have c: "isdigit c" and t: "\<forall>d\<in>set t. isdigit d" using ip ipc by auto
  note cl = isdigit_not_letter [OF c]
  obtain s where ts: "take_sign (sn @ c # t @ fpart @ j) = (s, c # t @ fpart @ j)"
    "take_sign (sn @ c # t @ fpart) = (s, c # t @ fpart)"
    using sn cl by (auto simp: take_sign_def)
  have j': "j = [] \<or> (\<not> isdigit (hd j) \<and> hd j \<noteq> CHR ''.'' \<and> tolower (hd j) \<noteq> CHR ''e'')"
    using j by auto
  have hx: "(case t @ fpart @ j of [] \<Rightarrow> False | x # u \<Rightarrow> tolower x = CHR ''x'') = False"
    "(case t @ fpart of [] \<Rightarrow> False | x # u \<Rightarrow> tolower x = CHR ''x'') = False"
    using t fpart j isdigit_not_letter
    by (cases t; cases fpart; cases j; auto simp: tolower_def)+
  show ?thesis
    using scan_digits_rest [OF ip fpart j', of s] cl hx
    unfolding ipc by (simp add: scan_float_def ts)
qed

section \<open>Frames, evaluated\<close>

lemma fields_examples:
  "ws_fields '''' = []"
  "ws_fields ''BAD'' = [''BAD'']"
  "ws_fields ''TEMP abc'' = [''TEMP'', ''abc'']"
  "ws_fields ''TEMP inf'' = [''TEMP'', ''inf'']"
  "ws_fields ''TEMP 22.5 EXTRA'' = [''TEMP'', ''22.5'', ''EXTRA'']"
  "ws_fields ''TEMP 22.5e'' = [''TEMP'', ''22.5e'']"
  "ws_fields ''TEMP 22.5abc'' = [''TEMP'', ''22.5abc'']"
  by (simp_all add: ws_fields_def isspace_def)

lemma scan_float_examples:
  "scan_float ''abc'' = None"
  "scan_float ''inf'' = Some (Infinity False)"
  "scan_float ''22.5'' = Some (Finite False (45 / 2))"
  "scan_float ''22.5e'' = Some (Finite False (45 / 2))"
  by code_simp+

lemma starts_with_number_examples:
  "\<not> starts_with_number ''abc''"
  "starts_with_number ''22.5e''"
  by code_simp+

lemma fmt_2f_examples:
  "fmt_2f (Infinity False) = ''inf''"
  "fmt_2f (Finite False (45 / 2)) = ''22.50''"
  by code_simp+

lemma frame_examples:
  "frame_check (takeWhile (\<lambda>c. c \<noteq> CHR 0x00) ''TEMP 22.50'') \<lparr>id' = '''', value' = Finite False 0\<rparr>
     = Inr (Inr (), \<lparr>id' = ''TEMP'', value' = Finite False (45 / 2)\<rparr>, [])"
  "frame_check (takeWhile (\<lambda>c. c \<noteq> CHR 0x00) ''TEMP 30.00'') \<lparr>id' = '''', value' = Finite False 0\<rparr>
     = Inr (Inr (), \<lparr>id' = ''TEMP'', value' = Finite False 30\<rparr>, [])"
  "frame_check (takeWhile (\<lambda>c. c \<noteq> CHR 0x00) ''TEMP 1500'') \<lparr>id' = '''', value' = Finite False 0\<rparr>
     = Inr (Inl (Invalid OutOfRange), \<lparr>id' = ''TEMP'', value' = Finite False 1500\<rparr>,
            [Stdout ''[ERROR] Sensor value out of realistic range: 1500.00\<newline>''])"
  "frame_check (takeWhile (\<lambda>c. c \<noteq> CHR 0x00) ''TEMP 1e'') \<lparr>id' = '''', value' = Finite False 0\<rparr>
     = Inr (Inr (), \<lparr>id' = ''TEMP'', value' = Finite False 1\<rparr>, [])"
  by code_simp+

text \<open>
  C10. When \<open>sscanf\<close> reports two converted fields, the identifier it stored is not
  empty, so \<open>validate_data\<close> accepts the reading or rejects it as out of range; and no
  frame at all is rejected by the worker for an empty identifier.
\<close>

theorem parsed_identifier_not_empty:
  "(sscanf_s_f buffer s0 = Inr (2, s1) \<longrightarrow>
      id' s1 \<noteq> []
      \<and> (fst (validate_data s1) = Inr () \<or> fst (validate_data s1) = Inl OutOfRange))
   \<and> frame_check buffer s0 \<noteq> Inr (Inl (Invalid EmptyIdentifier), s2, out)"
proof -
  have a: "id' s1 \<noteq> []" if "sscanf_s_f buffer s0 = Inr (2, s1)"
  proof -
    from that obtain t rest where f: "ws_fields buffer = t # rest" and s1: "id' s1 = t"
      by (auto simp: sscanf_fields split: list.splits if_splits option.splits)
    from f have "t \<noteq> []"
      using ws_fields_tokens [of t buffer] by simp
    with s1 show ?thesis by simp
  qed
  have b: "frame_check buffer s0 \<noteq> Inr (Inl (Invalid EmptyIdentifier), s2, out)"
    by (simp add: frame_check_fields split: list.splits option.splits)
  show ?thesis
    using a b by (auto simp: validate_data_cases)
qed

text \<open>C10 at the frame \<open>TEMP 22.5 EXTRA\<close>.\<close>

theorem parsed_identifier_not_empty_witness:
  "sscanf_s_f ''TEMP 22.5 EXTRA'' \<lparr>id' = '''', value' = Finite False 0\<rparr>
     = Inr (2, \<lparr>id' = ''TEMP'', value' = Finite False (45 / 2)\<rparr>)
   \<and> id' \<lparr>id' = ''TEMP'', value' = Finite False (45 / 2)\<rparr> \<noteq> []
   \<and> (fst (validate_data \<lparr>id' = ''TEMP'', value' = Finite False (45 / 2)\<rparr>) = Inr ()
      \<or> fst (validate_data \<lparr>id' = ''TEMP'', value' = Finite False (45 / 2)\<rparr>) = Inl OutOfRange)"
proof -
  have h: "sscanf_s_f ''TEMP 22.5 EXTRA'' \<lparr>id' = '''', value' = Finite False 0\<rparr>
     = Inr (2, \<lparr>id' = ''TEMP'', value' = Finite False (45 / 2)\<rparr>)"
    by (simp add: sscanf_fields fields_examples scan_float_examples)
  show ?thesis
    using parsed_identifier_not_empty [of "''TEMP 22.5 EXTRA''" "\<lparr>id' = '''', value' = Finite False 0\<rparr>"
                  "\<lparr>id' = ''TEMP'', value' = Finite False (45 / 2)\<rparr>"] h
    by blast
qed

text \<open>
  C4, as the code has it. A frame with no field, with one field, or whose second field
  does not start with a number is rejected with fewer than two conversions (the
  specification's \<open>MalformedFrame\<close>; -1 is \<open>EOF\<close>). A second field that starts with a
  number is converted: \<open>sscanf\<close> reports two conversions, whatever the field goes on
  with. A second field that converts to an infinity is rejected by the range check. A
  frame whose second field converts to a value in \<open>[0, 1000]\<close> is accepted whatever
  follows: \<open>ws\<close>, the fields after the second, is unconstrained. And the rest \<open>j\<close> of
  the second field after a decimal number does not change the value converted. The
  identifier has at most nine characters, the room of \<open>char id[10]\<close>.
\<close>

theorem malformed_frame_rejected:
  "(ws_fields buffer = [] \<longrightarrow>
      frame_check buffer s0 = Inr (Inl (NotTwoFields (- 1)), s0, []))
   \<and> (ws_fields buffer = [t] \<and> length t < 10 \<longrightarrow>
      frame_check buffer s0 = Inr (Inl (NotTwoFields 1), s0\<lparr>id' := t\<rparr>, []))
   \<and> (ws_fields buffer = t # u # ws \<and> length t < 10 \<and> \<not> starts_with_number u \<longrightarrow>
      frame_check buffer s0 = Inr (Inl (NotTwoFields 1), s0\<lparr>id' := t\<rparr>, []))
   \<and> (ws_fields buffer = t # u # ws \<and> length t < 10 \<and> starts_with_number u \<longrightarrow>
      (\<exists>v. scan_float u = Some v
           \<and> sscanf_s_f buffer s0 = Inr (2, s0\<lparr>id' := t, value' := v\<rparr>)))
   \<and> (ws_fields buffer = t # u # ws \<and> length t < 10 \<and> scan_float u = Some (Infinity sg) \<longrightarrow>
      frame_check buffer s0
        = Inr (Inl (Invalid OutOfRange), s0\<lparr>id' := t, value' := Infinity sg\<rparr>,
               [Stdout (''[ERROR] Sensor value out of realistic range: ''
                        @ fmt_2f (Infinity sg) @ ''\<newline>'')]))
   \<and> (ws_fields buffer = t # u # ws \<and> length t < 10 \<and> scan_float u = Some v \<and> in_range v \<longrightarrow>
      frame_check buffer s0 = Inr (Inr (), s0\<lparr>id' := t, value' := v\<rparr>, []))
   \<and> ((sn = [] \<or> sn = ''+'' \<or> sn = ''-'') \<and> ip \<noteq> [] \<and> list_all isdigit ip
       \<and> (fpart = [] \<or> (\<exists>fp. fpart = CHR ''.'' # fp \<and> list_all isdigit fp))
       \<and> (j = [] \<or> (\<not> isdigit (hd j) \<and> hd j \<noteq> CHR ''.'' \<and> tolower (hd j) \<noteq> CHR ''e''
                       \<and> tolower (hd j) \<noteq> CHR ''x'')) \<longrightarrow>
      scan_float (sn @ ip @ fpart @ j) = scan_float (sn @ ip @ fpart))"
proof -
  have a: "ws_fields buffer = t # u # ws \<and> length t < 10 \<and> \<not> starts_with_number u \<longrightarrow>
      frame_check buffer s0 = Inr (Inl (NotTwoFields 1), s0\<lparr>id' := t\<rparr>, [])"
    using scan_float_None_iff [of u] by (auto simp: frame_check_fields)
  have b: "ws_fields buffer = t # u # ws \<and> length t < 10 \<and> starts_with_number u \<longrightarrow>
      (\<exists>v. scan_float u = Some v
           \<and> sscanf_s_f buffer s0 = Inr (2, s0\<lparr>id' := t, value' := v\<rparr>))"
    using scan_float_Some [of u] by (auto simp: sscanf_fields)
  have c: "(sn = [] \<or> sn = ''+'' \<or> sn = ''-'') \<and> ip \<noteq> [] \<and> list_all isdigit ip
       \<and> (fpart = [] \<or> (\<exists>fp. fpart = CHR ''.'' # fp \<and> list_all isdigit fp))
       \<and> (j = [] \<or> (\<not> isdigit (hd j) \<and> hd j \<noteq> CHR ''.'' \<and> tolower (hd j) \<noteq> CHR ''e''
                       \<and> tolower (hd j) \<noteq> CHR ''x'')) \<longrightarrow>
      scan_float (sn @ ip @ fpart @ j) = scan_float (sn @ ip @ fpart)"
    using scan_float_rest [of sn ip fpart j] by (simp add: list_all_iff)
  have d: "(ws_fields buffer = [] \<longrightarrow>
      frame_check buffer s0 = Inr (Inl (NotTwoFields (- 1)), s0, []))
   \<and> (ws_fields buffer = [t] \<and> length t < 10 \<longrightarrow>
      frame_check buffer s0 = Inr (Inl (NotTwoFields 1), s0\<lparr>id' := t\<rparr>, []))
   \<and> (ws_fields buffer = t # u # ws \<and> length t < 10 \<and> scan_float u = Some (Infinity sg) \<longrightarrow>
      frame_check buffer s0
        = Inr (Inl (Invalid OutOfRange), s0\<lparr>id' := t, value' := Infinity sg\<rparr>,
               [Stdout (''[ERROR] Sensor value out of realistic range: ''
                        @ fmt_2f (Infinity sg) @ ''\<newline>'')]))
   \<and> (ws_fields buffer = t # u # ws \<and> length t < 10 \<and> scan_float u = Some v \<and> in_range v \<longrightarrow>
      frame_check buffer s0 = Inr (Inr (), s0\<lparr>id' := t, value' := v\<rparr>, []))"
    by (simp add: frame_check_fields)
  show ?thesis
    using a b c d by blast
qed

text \<open>
  C4 at seven frames: the empty one, \<open>BAD\<close>, \<open>TEMP abc\<close>, \<open>TEMP 22.5e\<close> (two
  conversions, the value 22.5), \<open>TEMP inf\<close>, \<open>TEMP 22.5 EXTRA\<close> and \<open>TEMP 22.5abc\<close>
  (both accepted with the value 22.5).
\<close>

theorem malformed_frame_rejected_witness:
  "frame_check '''' \<lparr>id' = '''', value' = Finite False 0\<rparr>
     = Inr (Inl (NotTwoFields (- 1)), \<lparr>id' = '''', value' = Finite False 0\<rparr>, [])
   \<and> frame_check ''BAD'' \<lparr>id' = '''', value' = Finite False 0\<rparr>
     = Inr (Inl (NotTwoFields 1), \<lparr>id' = ''BAD'', value' = Finite False 0\<rparr>, [])
   \<and> frame_check ''TEMP abc'' \<lparr>id' = '''', value' = Finite False 0\<rparr>
     = Inr (Inl (NotTwoFields 1), \<lparr>id' = ''TEMP'', value' = Finite False 0\<rparr>, [])
   \<and> sscanf_s_f ''TEMP 22.5e'' \<lparr>id' = '''', value' = Finite False 0\<rparr>
     = Inr (2, \<lparr>id' = ''TEMP'', value' = Finite False (45 / 2)\<rparr>)
   \<and> frame_check ''TEMP inf'' \<lparr>id' = '''', value' = Finite False 0\<rparr>
     = Inr (Inl (Invalid OutOfRange), \<lparr>id' = ''TEMP'', value' = Infinity False\<rparr>,
            [Stdout ''[ERROR] Sensor value out of realistic range: inf\<newline>''])
   \<and> frame_check ''TEMP 22.5 EXTRA'' \<lparr>id' = '''', value' = Finite False 0\<rparr>
     = Inr (Inr (), \<lparr>id' = ''TEMP'', value' = Finite False (45 / 2)\<rparr>, [])
   \<and> frame_check ''TEMP 22.5abc'' \<lparr>id' = '''', value' = Finite False 0\<rparr>
     = Inr (Inr (), \<lparr>id' = ''TEMP'', value' = Finite False (45 / 2)\<rparr>, [])"
proof -
  let ?s0 = "\<lparr>id' = '''', value' = Finite False 0\<rparr>"
  have r: "scan_float ''22.5abc'' = Some (Finite False (45 / 2))"
    using malformed_frame_rejected [of _ _ _ _ _ _ _ "[]" "''22''" "''.5''" "''abc''"]
    by (simp add: scan_float_examples isdigit_def tolower_def)
  have e: "sscanf_s_f ''TEMP 22.5e'' ?s0 = Inr (2, \<lparr>id' = ''TEMP'', value' = Finite False (45 / 2)\<rparr>)"
    using malformed_frame_rejected [of "''TEMP 22.5e''" ?s0 "''TEMP''" "''22.5e''" "[]"]
    by (simp add: fields_examples scan_float_examples starts_with_number_examples)
  show ?thesis
    using malformed_frame_rejected [of "''''" ?s0]
      malformed_frame_rejected [of "''BAD''" ?s0 "''BAD''"]
      malformed_frame_rejected [of "''TEMP abc''" ?s0 "''TEMP''" "''abc''" "[]"]
      malformed_frame_rejected [of "''TEMP inf''" ?s0 "''TEMP''" "''inf''" "[]" False]
      malformed_frame_rejected [of "''TEMP 22.5 EXTRA''" ?s0 "''TEMP''" "''22.5''"
           "[''EXTRA'']" _ "Finite False (45 / 2)"]
      malformed_frame_rejected [of "''TEMP 22.5abc''" ?s0 "''TEMP''" "''22.5abc''"
           "[]" _ "Finite False (45 / 2)"]
      e r
    by (simp add: fields_examples scan_float_examples fmt_2f_examples
          starts_with_number_examples)
qed

text \<open>
  C4 as the specification words it fails: \<open>TEMP 22.5 EXTRA\<close> has three fields, not
  two, and it is accepted as the reading \<open>TEMP\<close>, 22.5.
\<close>

theorem trailing_token_counterexample:
  "ws_fields ''TEMP 22.5 EXTRA'' = [''TEMP'', ''22.5'', ''EXTRA'']
   \<and> frame_check ''TEMP 22.5 EXTRA'' \<lparr>id' = '''', value' = Finite False 0\<rparr>
     = Inr (Inr (), \<lparr>id' = ''TEMP'', value' = Finite False (45 / 2)\<rparr>, [])"
  by (simp add: frame_check_fields fields_examples scan_float_examples)

text \<open>
  C1 fails on the code twice. The frame \<open>TEMP nan\<close> converts to the identifier
  \<open>TEMP\<close> and a NaN, which is not a value in \<open>[0, 1000]\<close>; both comparisons of
  \<open>validate_data\<close> are false for it, so the frame is accepted, logged and recorded, and
  \<open>total_value\<close> is a NaN from then on. And the frame \<open>TEMPERATURE 22.5\<close>, with a first
  field that is not empty and a value in \<open>[0, 1000]\<close>, gives no reading with that
  identifier: its eleven characters and the NUL do not fit \<open>char id[10]\<close>.
\<close>

theorem nan_frame_recorded:
  "loop_body \<lparr>port_name = ''COM3'', hSerial = 11\<rparr> ''TEMP nan'' True
     \<lparr>sensor = \<lparr>id' = '''', value' = Finite False 0\<rparr>, stats = initial_stats\<rparr>
   = Inr (\<lparr>sensor = \<lparr>id' = ''TEMP'', value' = NaN False\<rparr>,
           stats = \<lparr>min_limit = Finite False 5, max_limit = Finite False 25,
                    total_value = NaN False, max_value = Finite True 1000,
                    min_value = Finite False 1000, count = 1\<rparr>\<rparr>,
          [Stdout ''[COM3] Sensor: TEMP, Value: nan\<newline>'',
           FileAppend ''sensor_data.csv'' ''COM3,TEMP,nan\<newline>''])
   \<and> loop_body \<lparr>port_name = ''COM3'', hSerial = 11\<rparr> ''TEMPERATURE 22.5'' True
     \<lparr>sensor = \<lparr>id' = '''', value' = Finite False 0\<rparr>, stats = initial_stats\<rparr>
   = Inl IdOverflow"
  by (rule conjI; code_simp)

section \<open>One iteration of the loop\<close>

lemma loop_body_rejected:
  assumes "frame_check (takeWhile (\<lambda>c. c \<noteq> CHR 0x00) bytes) (sensor l) = Inr (Inl r, s1, out)"
  shows "loop_body p bytes co l =
           Inr (l\<lparr>sensor := s1\<rparr>,
                out @ [Stdout (''[ERROR] Invalid data format: ''
                               @ takeWhile (\<lambda>c. c \<noteq> CHR 0x00) bytes @ ''\<newline>'')])"
  using assms by (simp add: loop_body_def Let_def)

lemma loop_body_accepted:
  assumes "frame_check (takeWhile (\<lambda>c. c \<noteq> CHR 0x00) bytes) (sensor l) = Inr (Inr u, s1, out)"
  shows "loop_body p bytes co l =
           Inr (\<lparr>sensor = s1, stats = fst (monitor_quality s1 (stats l) (port_name p))\<rparr>,
                out @ [Stdout (reading_line (port_name p) s1)]
                  @ log_to_csv co ''sensor_data.csv'' (port_name p) s1
                  @ snd (monitor_quality s1 (stats l) (port_name p)))"
  using assms by (simp add: loop_body_def Let_def split_beta)

lemma frame_check_out:
  assumes "frame_check buffer s0 = Inr (res, s1, out)"
  shows "out = snd (validate_data s1) \<or> out = []"
  using assms
  by (auto simp: frame_check_def split: sum.splits prod.splits if_splits)

lemma frame_check_accepted_out:
  assumes "frame_check buffer s0 = Inr (Inr u, s1, out)"
  shows "out = [] \<and> fst (validate_data s1) = Inr ()"
  using assms
  by (auto simp: frame_check_def split: sum.splits prod.splits if_splits dest: validate_data_accepts_out)

lemma frame_check_rejected_out:
  assumes "frame_check buffer s0 = Inr (Inl r, s1, out)"
  shows "\<forall>e\<in>set out. \<not> is_append e \<and> \<not> is_alert e \<and> \<not> is_close e"
  using frame_check_out [OF assms] validate_data_out [of _ s1] by auto

lemma polling_loop_frame:
  assumes "loop_body p bytes co l = Inr (l1, evs)"
  shows "polling_loop p l (\<lparr>read_file = Some bytes, can_open = co\<rparr> # as) =
           (evs @ [Sleep 1000] @ fst (polling_loop p l1 as), snd (polling_loop p l1 as))"
  using assms by (simp add: split_beta)

text \<open>
  A frame that \<open>sscanf\<close> stores within \<open>sensor\<close> and that is rejected (fewer than two
  fields converted, or \<open>validate_data\<close> returned 0) changes \<open>sensor\<close> only: \<open>stats\<close>
  is as before, all six fields; the events are the lines of the rejection, none an
  append to the file and none an alert; and the loop goes on with the next answer after
  its \<open>Sleep\<close>.
\<close>

lemma rejected_frame_changes_nothing:
  assumes "frame_check (takeWhile (\<lambda>c. c \<noteq> CHR 0x00) bytes) (sensor l) = Inr (Inl r, s1, out)"
  shows "loop_body p bytes co l =
           Inr (l\<lparr>sensor := s1\<rparr>,
                out @ [Stdout (''[ERROR] Invalid data format: ''
                               @ takeWhile (\<lambda>c. c \<noteq> CHR 0x00) bytes @ ''\<newline>'')])
       \<and> stats (l\<lparr>sensor := s1\<rparr>) = stats l
       \<and> (\<forall>e\<in>set (out @ [Stdout (''[ERROR] Invalid data format: ''
                               @ takeWhile (\<lambda>c. c \<noteq> CHR 0x00) bytes @ ''\<newline>'')]).
             \<not> is_append e \<and> \<not> is_alert e)
       \<and> polling_loop p l (\<lparr>read_file = Some bytes, can_open = co\<rparr> # as) =
           (out @ [Stdout (''[ERROR] Invalid data format: ''
                               @ takeWhile (\<lambda>c. c \<noteq> CHR 0x00) bytes @ ''\<newline>'')]
              @ [Sleep 1000] @ fst (polling_loop p (l\<lparr>sensor := s1\<rparr>) as),
            snd (polling_loop p (l\<lparr>sensor := s1\<rparr>) as))"
proof -
  note lb = loop_body_rejected [OF assms, of p co]
  have ev: "\<forall>e\<in>set out. \<not> is_append e \<and> \<not> is_alert e"
    using frame_check_rejected_out [OF assms] by simp
  show ?thesis
    using lb ev polling_loop_frame [OF lb, of as] by simp
qed

text \<open>So at the frame \<open>TEMP 1500\<close>, rejected as out of range.\<close>

lemma rejected_frame_changes_nothing_example:
  "loop_body \<lparr>port_name = ''COM3'', hSerial = 11\<rparr> ''TEMP 1500'' True
     \<lparr>sensor = \<lparr>id' = '''', value' = Finite False 0\<rparr>, stats = initial_stats\<rparr>
   = Inr (\<lparr>sensor = \<lparr>id' = ''TEMP'', value' = Finite False 1500\<rparr>, stats = initial_stats\<rparr>,
          [Stdout ''[ERROR] Sensor value out of realistic range: 1500.00\<newline>'',
           Stdout ''[ERROR] Invalid data format: TEMP 1500\<newline>''])
   \<and> polling_loop \<lparr>port_name = ''COM3'', hSerial = 11\<rparr>
        \<lparr>sensor = \<lparr>id' = '''', value' = Finite False 0\<rparr>, stats = initial_stats\<rparr>
        [\<lparr>read_file = Some ''TEMP 1500'', can_open = True\<rparr>]
     = ([Stdout ''[ERROR] Sensor value out of realistic range: 1500.00\<newline>'',
         Stdout ''[ERROR] Invalid data format: TEMP 1500\<newline>'', Sleep 1000],
        Blocked \<lparr>sensor = \<lparr>id' = ''TEMP'', value' = Finite False 1500\<rparr>,
                 stats = initial_stats\<rparr>)"
  using rejected_frame_changes_nothing [of "''TEMP 1500''"
               "\<lparr>sensor = \<lparr>id' = '''', value' = Finite False 0\<rparr>, stats = initial_stats\<rparr>"
               "Invalid OutOfRange" "\<lparr>id' = ''TEMP'', value' = Finite False 1500\<rparr>"
               "[Stdout ''[ERROR] Sensor value out of realistic range: 1500.00\<newline>'']"
               "\<lparr>port_name = ''COM3'', hSerial = 11\<rparr>" True "[]"]
    frame_examples(3)
  by simp

text \<open>
  A frame whose first field has ten or more characters is not stored within \<open>sensor\<close>:
  \<open>%s\<close> has no field width, and the field with its NUL runs past \<open>char id[10]\<close>.
\<close>

lemma frame_check_long_identifier:
  "ws_fields buffer = t # ws \<Longrightarrow> 10 \<le> length t \<Longrightarrow> frame_check buffer s0 = Inl IdOverflow"
  by (simp add: frame_check_fields)

text \<open>
  C7 fails on the code. The frame of forty \<open>A\<close> is one field, so it fails parsing:
  \<open>sscanf\<close> has one conversion to report. But that conversion writes the forty
  characters and a NUL from \<open>sensor.id\<close> on, past the end of \<open>sensor\<close>, where the
  other variables of \<open>read_serial_thread\<close> lie, \<open>stats\<close> among them. The behaviour
  is undefined: nothing in the code keeps \<open>stats\<close> as it was or brings the worker
  back to polling, and the run ends there, before the next frame \<open>TEMP 22.50\<close>.
\<close>

theorem long_identifier_frame_undefined:
  "ws_fields ''AAAAAAAAAAAAAAAAAAAAAAAAAAAAAAAAAAAAAAAA''
     = [''AAAAAAAAAAAAAAAAAAAAAAAAAAAAAAAAAAAAAAAA'']
   \<and> sscanf_s_f ''AAAAAAAAAAAAAAAAAAAAAAAAAAAAAAAAAAAAAAAA'' \<lparr>id' = '''', value' = Finite False 0\<rparr>
     = Inl IdOverflow
   \<and> read_serial_thread \<lparr>port_name = ''COM3'', hSerial = 11\<rparr>
        \<lparr>id' = '''', value' = Finite False 0\<rparr>
        [\<lparr>read_file = Some ''AAAAAAAAAAAAAAAAAAAAAAAAAAAAAAAAAAAAAAAA'', can_open = True\<rparr>,
         \<lparr>read_file = Some ''TEMP 22.50'', can_open = True\<rparr>]
     = ([], Undefined IdOverflow)"
proof -
  have f: "ws_fields ''AAAAAAAAAAAAAAAAAAAAAAAAAAAAAAAAAAAAAAAA''
     = [''AAAAAAAAAAAAAAAAAAAAAAAAAAAAAAAAAAAAAAAA'']"
    by (simp add: ws_fields_def isspace_def)
  have s: "sscanf_s_f ''AAAAAAAAAAAAAAAAAAAAAAAAAAAAAAAAAAAAAAAA'' \<lparr>id' = '''', value' = Finite False 0\<rparr>
     = Inl IdOverflow"
    by (simp add: sscanf_fields f)
  have l: "loop_body \<lparr>port_name = ''COM3'', hSerial = 11\<rparr>
             ''AAAAAAAAAAAAAAAAAAAAAAAAAAAAAAAAAAAAAAAA'' True
             \<lparr>sensor = \<lparr>id' = '''', value' = Finite False 0\<rparr>, stats = initial_stats\<rparr>
           = Inl IdOverflow"
    by (simp add: loop_body_def frame_check_fields f)
  show ?thesis
    using f s l by (simp add: read_serial_thread_def)
qed

text \<open>
  C5, as the code has it. For an accepted frame the iteration prints the reading, then
  calls \<open>log_to_csv\<close>, then \<open>monitor_quality\<close>: the append to the file comes before
  the update of the statistics and before the alert. The statistics are updated whether
  or not the file could be opened (\<open>co\<close>).
\<close>

theorem persist_then_record:
  assumes "frame_check (takeWhile (\<lambda>c. c \<noteq> CHR 0x00) bytes) (sensor l) = Inr (Inr (), s1, out)"
  shows "loop_body p bytes co l =
           Inr (\<lparr>sensor = s1, stats = fst (monitor_quality s1 (stats l) (port_name p))\<rparr>,
                [Stdout (reading_line (port_name p) s1)]
                  @ log_to_csv co ''sensor_data.csv'' (port_name p) s1
                  @ snd (monitor_quality s1 (stats l) (port_name p)))"
  using loop_body_accepted [OF assms, of p co] frame_check_accepted_out [OF assms] by simp

text \<open>C5 at the frame \<open>TEMP 30.00\<close> when the file cannot be opened.\<close>

theorem persist_then_record_witness:
  "loop_body \<lparr>port_name = ''COM3'', hSerial = 11\<rparr> ''TEMP 30.00'' False
     \<lparr>sensor = \<lparr>id' = '''', value' = Finite False 0\<rparr>, stats = initial_stats\<rparr>
   = Inr (\<lparr>sensor = \<lparr>id' = ''TEMP'', value' = Finite False 30\<rparr>,
           stats = fst (monitor_quality \<lparr>id' = ''TEMP'', value' = Finite False 30\<rparr>
                          initial_stats ''COM3'')\<rparr>,
          [Stdout (reading_line ''COM3'' \<lparr>id' = ''TEMP'', value' = Finite False 30\<rparr>),
           Stdout ''[ERROR] Unable to open file sensor_data.csv for logging.\<newline>'']
            @ snd (monitor_quality \<lparr>id' = ''TEMP'', value' = Finite False 30\<rparr>
                     initial_stats ''COM3''))"
  using persist_then_record [of "''TEMP 30.00''"
               "\<lparr>sensor = \<lparr>id' = '''', value' = Finite False 0\<rparr>, stats = initial_stats\<rparr>"
               "\<lparr>id' = ''TEMP'', value' = Finite False 30\<rparr>" "[]"
               "\<lparr>port_name = ''COM3'', hSerial = 11\<rparr>" False]
    frame_examples(2)
  by (simp add: log_to_csv_def)

text \<open>
  C5 as the specification words it, the alert first and the file after, fails: for
  \<open>TEMP 30.00\<close> the alert line follows the append.
\<close>

theorem alert_after_append_counterexample:
  "loop_body \<lparr>port_name = ''COM3'', hSerial = 11\<rparr> ''TEMP 30.00'' True
     \<lparr>sensor = \<lparr>id' = '''', value' = Finite False 0\<rparr>, stats = initial_stats\<rparr>
   = Inr (\<lparr>sensor = \<lparr>id' = ''TEMP'', value' = Finite False 30\<rparr>,
           stats = \<lparr>min_limit = Finite False 5, max_limit = Finite False 25,
                    total_value = Finite False 30, max_value = Finite False 30,
                    min_value = Finite False 30, count = 1\<rparr>\<rparr>,
          [Stdout ''[COM3] Sensor: TEMP, Value: 30.00\<newline>'',
           FileAppend ''sensor_data.csv'' ''COM3,TEMP,30.00\<newline>'',
           Stdout ''[ALERT] TEMP out of range on COM3! Value: 30.00 (Limits: 5.00 - 25.00)\<newline>''])
   \<and> \<not> no_alert_after_append
         [Stdout ''[COM3] Sensor: TEMP, Value: 30.00\<newline>'',
          FileAppend ''sensor_data.csv'' ''COM3,TEMP,30.00\<newline>'',
          Stdout ''[ALERT] TEMP out of range on COM3! Value: 30.00 (Limits: 5.00 - 25.00)\<newline>'']"
proof
  show "loop_body \<lparr>port_name = ''COM3'', hSerial = 11\<rparr> ''TEMP 30.00'' True
     \<lparr>sensor = \<lparr>id' = '''', value' = Finite False 0\<rparr>, stats = initial_stats\<rparr>
   = Inr (\<lparr>sensor = \<lparr>id' = ''TEMP'', value' = Finite False 30\<rparr>,
           stats = \<lparr>min_limit = Finite False 5, max_limit = Finite False 25,
                    total_value = Finite False 30, max_value = Finite False 30,
                    min_value = Finite False 30, count = 1\<rparr>\<rparr>,
          [Stdout ''[COM3] Sensor: TEMP, Value: 30.00\<newline>'',
           FileAppend ''sensor_data.csv'' ''COM3,TEMP,30.00\<newline>'',
           Stdout ''[ALERT] TEMP out of range on COM3! Value: 30.00 (Limits: 5.00 - 25.00)\<newline>''])"
    by code_simp
  show "\<not> no_alert_after_append
         [Stdout ''[COM3] Sensor: TEMP, Value: 30.00\<newline>'',
          FileAppend ''sensor_data.csv'' ''COM3,TEMP,30.00\<newline>'',
          Stdout ''[ALERT] TEMP out of range on COM3! Value: 30.00 (Limits: 5.00 - 25.00)\<newline>'']"
    by (simp add: no_alert_after_append_def)
qed

section \<open>The polling loop\<close>

lemma log_to_csv_events:
  "e \<in> set (log_to_csv co f p s) \<Longrightarrow> \<not> is_close e"
  by (auto simp: log_to_csv_def split: if_splits)

lemma monitor_quality_events:
  "e \<in> set (snd (monitor_quality s st p)) \<Longrightarrow> \<not> is_close e"
  by (auto simp: monitor_quality_alert split: if_splits)

lemma loop_body_no_close:
  assumes "loop_body p bytes co l = Inr (l1, evs)"
  shows "\<forall>e\<in>set evs. \<not> is_close e"
proof (cases "frame_check (takeWhile (\<lambda>c. c \<noteq> CHR 0x00) bytes) (sensor l)")
  case (Inl f)
  then show ?thesis using assms by (simp add: loop_body_def)
next
  case (Inr x)
  obtain res s1 out where x: "x = (res, s1, out)" by (cases x) auto
  show ?thesis
  proof (cases res)
    case (Inl r)
    with Inr x have fc: "frame_check (takeWhile (\<lambda>c. c \<noteq> CHR 0x00) bytes) (sensor l) = Inr (Inl r, s1, out)"
      by simp
    from loop_body_rejected [OF fc, of p co] assms frame_check_rejected_out [OF fc]
    show ?thesis by auto
  next
    case (Inr u)
    with \<open>frame_check _ _ = Inr x\<close> x
    have fc: "frame_check (takeWhile (\<lambda>c. c \<noteq> CHR 0x00) bytes) (sensor l) = Inr (Inr u, s1, out)"
      by simp
    from loop_body_accepted [OF fc, of p co] assms frame_check_accepted_out [OF fc]
    show ?thesis
      by (auto dest: log_to_csv_events monitor_quality_events)
  qed
qed

lemma polling_loop_blocked_no_close:
  "polling_loop p l as = (evs, Blocked l1) \<Longrightarrow> \<forall>e\<in>set evs. \<not> is_close e"
proof (induction as arbitrary: l evs)
  case Nil
  then show ?case by simp
next
  case (Cons a as)
  from Cons.prems obtain bytes where rd: "read_file a = Some bytes"
    by (cases "read_file a") auto
  from Cons.prems rd obtain l2 ev2 where lb: "loop_body p bytes (can_open a) l = Inr (l2, ev2)"
    by (cases "loop_body p bytes (can_open a) l") auto
  obtain ev3 e3 where pl: "polling_loop p l2 as = (ev3, e3)"
    by (cases "polling_loop p l2 as") auto
  from Cons.prems rd lb pl have evs: "evs = ev2 @ [Sleep 1000] @ ev3" and e3: "e3 = Blocked l1"
    by simp_all
  from Cons.IH [of l2 ev3] pl e3 have "\<forall>e\<in>set ev3. \<not> is_close e"
    by simp
  with loop_body_no_close [OF lb] evs show ?case
    by auto
qed

lemma polling_loop_append:
  "polling_loop p l pre = (evs, Blocked l1) \<Longrightarrow>
     polling_loop p l (pre @ rest) = (evs @ fst (polling_loop p l1 rest), snd (polling_loop p l1 rest))"
proof (induction pre arbitrary: l evs)
  case Nil
  then show ?case by simp
next
  case (Cons a as)
  from Cons.prems obtain bytes where rd: "read_file a = Some bytes"
    by (cases "read_file a") auto
  from Cons.prems rd obtain l2 ev2 where lb: "loop_body p bytes (can_open a) l = Inr (l2, ev2)"
    by (cases "loop_body p bytes (can_open a) l") auto
  obtain ev3 e3 where pl: "polling_loop p l2 as = (ev3, e3)"
    by (cases "polling_loop p l2 as") auto
  from Cons.prems rd lb pl have evs: "evs = ev2 @ [Sleep 1000] @ ev3" and e3: "e3 = Blocked l1"
    by simp_all
  from Cons.IH [of l2 ev3] pl e3
  have "polling_loop p l2 (as @ rest) = (ev3 @ fst (polling_loop p l1 rest), snd (polling_loop p l1 rest))"
    by simp
  with rd lb evs show ?case
    by simp
qed

lemma polling_example:
  "polling_loop \<lparr>port_name = ''COM3'', hSerial = 11\<rparr>
        \<lparr>sensor = \<lparr>id' = '''', value' = Finite False 0\<rparr>, stats = initial_stats\<rparr>
        [\<lparr>read_file = Some ''TEMP 22.50'', can_open = True\<rparr>]
     = ([Stdout ''[COM3] Sensor: TEMP, Value: 22.50\<newline>'',
         FileAppend ''sensor_data.csv'' ''COM3,TEMP,22.50\<newline>'', Sleep 1000],
        Blocked \<lparr>sensor = \<lparr>id' = ''TEMP'', value' = Finite False (45 / 2)\<rparr>,
                 stats = \<lparr>min_limit = Finite False 5, max_limit = Finite False 25,
                    total_value = Finite False (45 / 2), max_value = Finite False (45 / 2),
                    min_value = Finite False (45 / 2), count = 1\<rparr>\<rparr>)"
  by code_simp






text \<open>
  C9. A worker that has handled the answers \<open>pre\<close> and is blocked in \<open>ReadFile\<close>, and
  whose next read fails, leaves the loop and returns 0, whatever answers would follow.
  On the way out it closes its handle and frees its \<open>SerialPortInfo\<close>; in the whole
  run \<open>CloseHandle\<close> is called once, on that handle.
\<close>

theorem read_failure_releases_handle_once:
  assumes polling: "polling_loop p l pre = (evs, Blocked l1)"
    and fails: "read_file a = None"
  shows "polling_loop p l (pre @ a # post) =
           (evs @ [Stdout (''[ERROR] Failed to read from port '' @ port_name p @ ''\<newline>''),
                   CloseHandle (hSerial p), Free (port_name p)],
            Returned 0)
       \<and> filter is_close
            (evs @ [Stdout (''[ERROR] Failed to read from port '' @ port_name p @ ''\<newline>''),
                    CloseHandle (hSerial p), Free (port_name p)])
           = [CloseHandle (hSerial p)]"
proof -
  have "filter is_close evs = []"
    using polling_loop_blocked_no_close [OF polling] by (simp add: filter_empty_conv)
  then show ?thesis
    using polling_loop_append [OF polling, of "a # post"] fails by simp
qed

text \<open>C9 for a worker that reads \<open>TEMP 22.50\<close> and then fails to read.\<close>

theorem read_failure_releases_handle_once_witness:
  "read_serial_thread \<lparr>port_name = ''COM3'', hSerial = 11\<rparr>
        \<lparr>id' = '''', value' = Finite False 0\<rparr>
        [\<lparr>read_file = Some ''TEMP 22.50'', can_open = True\<rparr>,
         \<lparr>read_file = None, can_open = True\<rparr>,
         \<lparr>read_file = Some ''TEMP 22.50'', can_open = True\<rparr>]
     = ([Stdout ''[COM3] Sensor: TEMP, Value: 22.50\<newline>'',
         FileAppend ''sensor_data.csv'' ''COM3,TEMP,22.50\<newline>'', Sleep 1000,
         Stdout ''[ERROR] Failed to read from port COM3\<newline>'', CloseHandle 11, Free ''COM3''],
        Returned 0)"
  unfolding read_serial_thread_def
  using read_failure_releases_handle_once
          [OF polling_example, of "\<lparr>read_file = None, can_open = True\<rparr>"
              "[\<lparr>read_file = Some ''TEMP 22.50'', can_open = True\<rparr>]"]
  by simp

section \<open>The text of a formatted value and of a record\<close>

lemma isdigit_digit_char: "0 \<le> d \<Longrightarrow> d < 10 \<Longrightarrow> isdigit (digit_char d)"
  by (simp add: isdigit_def digit_char_def)

lemma dec_digits: "0 \<le> n \<Longrightarrow> dec n \<noteq> [] \<and> (\<forall>c\<in>set (dec n). isdigit c)"
proof (induction n rule: dec.induct)
  case (1 n)
  show ?case
  proof (cases "n < 10")
    case True
    then show ?thesis
      using "1.prems" by (subst dec.simps, subst dec.simps) (simp add: isdigit_digit_char)
  next
    case False
    with 1 have ih: "dec (n div 10) \<noteq> [] \<and> (\<forall>c\<in>set (dec (n div 10)). isdigit c)"
      by simp
    have "dec n = dec (n div 10) @ [digit_char (n mod 10)]"
      using False by (subst dec.simps) simp
    with ih show ?thesis
      by (simp add: isdigit_digit_char)
  qed
qed

lemma round_half_even_nonneg: "0 \<le> x \<Longrightarrow> 0 \<le> round_half_even x"
  by (simp add: round_half_even_def Let_def)

lemma isdigit_chars:
  "isdigit c \<Longrightarrow> c \<noteq> CHR '','' \<and> c \<noteq> CHR 0x0A \<and> c \<noteq> CHR ''-'' \<and> c \<noteq> CHR ''.''"
  by (auto simp: isdigit_def)

lemma fmt_2f_finite:
  "\<exists>ip d1 d2. fmt_2f (Finite s m) = (if s then ''-'' else '''') @ ip @ ''.'' @ [d1, d2]
     \<and> ip \<noteq> [] \<and> (\<forall>c\<in>set ip. isdigit c) \<and> isdigit d1 \<and> isdigit d2"
proof -
  let ?n = "round_half_even (\<bar>m\<bar> * 100)"
  have n: "0 \<le> ?n"
    by (rule round_half_even_nonneg) simp
  have "fmt_2f (Finite s m) = (if s then ''-'' else '''') @ dec (?n div 100) @ ''.''
          @ [digit_char (?n div 10 mod 10), digit_char (?n mod 10)]"
    by (simp add: Let_def)
  moreover have "isdigit (digit_char (?n div 10 mod 10))" "isdigit (digit_char (?n mod 10))"
    by (simp_all add: isdigit_digit_char)
  moreover have "0 \<le> ?n div 100"
    using n by (simp add: pos_imp_zdiv_nonneg_iff)
  ultimately show ?thesis
    using dec_digits [of "?n div 100"] by blast
qed

lemma two_fraction_digits_shape:
  assumes "ip \<noteq> []" "\<forall>c\<in>set ip. isdigit c" "isdigit d1" "isdigit d2"
  shows "two_fraction_digits ((if s then ''-'' else '''') @ ip @ ''.'' @ [d1, d2])"
proof -
  obtain c r where ip: "ip = c # r" using assms(1) by (cases ip) auto
  have c: "c \<noteq> CHR ''-''" using assms(2) ip isdigit_chars [of c] by simp
  show ?thesis
    using assms c ip by (cases s) (simp_all add: two_fraction_digits_def list_all_iff)
qed

lemma fmt_2f_two_fraction_digits: "two_fraction_digits (fmt_2f (Finite s m))"
  using fmt_2f_finite [of s m] two_fraction_digits_shape by metis

lemma fmt_2f_chars:
  "CHR '','' \<notin> set (fmt_2f (Finite s m)) \<and> CHR 0x0A \<notin> set (fmt_2f (Finite s m))"
proof -
  obtain ip d1 d2 where f: "fmt_2f (Finite s m) = (if s then ''-'' else '''') @ ip @ ''.'' @ [d1, d2]"
    and d: "\<forall>c\<in>set ip. isdigit c" "isdigit d1" "isdigit d2"
    using fmt_2f_finite [of s m] by blast
  show ?thesis
    unfolding f using d isdigit_chars by (cases s) auto
qed

lemma split_on_none: "sep \<notin> set a \<Longrightarrow> split_on sep cur a = [cur @ a]"
  by (induction a arbitrary: cur) auto

lemma split_on_first:
  "sep \<notin> set a \<Longrightarrow> split_on sep cur (a @ sep # rest) = (cur @ a) # split_on sep [] rest"
  by (induction a arbitrary: cur) auto

lemma csv_fields_three:
  assumes "CHR '','' \<notin> set a" "CHR '','' \<notin> set b" "CHR '','' \<notin> set c"
  shows "csv_fields (a @ CHR '','' # b @ CHR '','' # c) = [a, b, c]"
proof -
  have "csv_fields (a @ CHR '','' # b @ CHR '','' # c)
          = a # split_on (CHR '','') [] (b @ CHR '','' # c)"
    using split_on_first [OF assms(1), of "[]" "b @ CHR '','' # c"] by (simp add: csv_fields_def)
  also have "split_on (CHR '','') [] (b @ CHR '','' # c) = b # split_on (CHR '','') [] c"
    using split_on_first [OF assms(2), of "[]" c] by simp
  also have "split_on (CHR '','') [] c = [c]"
    using split_on_none [OF assms(3), of "[]"] by simp
  finally show ?thesis .
qed

lemma accepted_value:
  assumes "frame_check buffer s0 = Inr (Inr u, s1, out)"
  shows "id' s1 \<noteq> [] \<and> (\<forall>c\<in>set (id' s1). \<not> isspace c)
       \<and> (is_nan (value' s1) \<or> in_range (value' s1))"
proof -
  from assms obtain t rest v where f: "ws_fields buffer = t # rest"
    and s1: "s1 = s0\<lparr>id' := t, value' := v\<rparr>" and v: "is_nan v \<or> in_range v"
    by (auto simp: frame_check_fields split: list.splits if_splits option.splits)
  from f have "t \<noteq> [] \<and> (\<forall>c\<in>set t. \<not> isspace c)"
    using ws_fields_tokens [of t buffer] by simp
  with s1 v show ?thesis by simp
qed

lemma monitor_quality_no_append:
  "filter is_append (snd (monitor_quality s st p)) = []"
  by (simp add: monitor_quality_alert)

text \<open>
  C8, as the code has it. For an accepted frame whose value is a number, and a file that
  opens, the iteration appends one record: the port name, a comma, the identifier, a
  comma, the value with two fractional digits, a newline. The record splits at its commas
  into exactly these three fields when neither the port name nor the identifier holds a
  comma, and holds no newline before its end when the port name holds none.
\<close>

theorem csv_record_format:
  assumes acc: "frame_check (takeWhile (\<lambda>c. c \<noteq> CHR 0x00) bytes) (sensor l) = Inr (Inr (), s1, out)"
    and num: "\<not> is_nan (value' s1)"
  shows "loop_body p bytes True l =
           Inr (\<lparr>sensor = s1, stats = fst (monitor_quality s1 (stats l) (port_name p))\<rparr>,
                [Stdout (reading_line (port_name p) s1),
                 FileAppend ''sensor_data.csv''
                   (port_name p @ '','' @ id' s1 @ '','' @ fmt_2f (value' s1) @ ''\<newline>'')]
                  @ snd (monitor_quality s1 (stats l) (port_name p)))
       \<and> filter is_append (snd (monitor_quality s1 (stats l) (port_name p))) = []
       \<and> two_fraction_digits (fmt_2f (value' s1))
       \<and> (CHR '','' \<notin> set (port_name p) \<and> CHR '','' \<notin> set (id' s1) \<longrightarrow>
            csv_fields (port_name p @ '','' @ id' s1 @ '','' @ fmt_2f (value' s1))
              = [port_name p, id' s1, fmt_2f (value' s1)])
       \<and> (CHR 0x0A \<notin> set (port_name p) \<longrightarrow>
            CHR 0x0A \<notin> set (port_name p @ '','' @ id' s1 @ '','' @ fmt_2f (value' s1)))"
proof -
  from frame_check_accepted_out [OF acc] have out: "out = []" by simp
  from accepted_value [OF acc] num
  have idc: "\<forall>c\<in>set (id' s1). \<not> isspace c" and rng: "in_range (value' s1)"
    by auto
  from rng obtain s m where v: "value' s1 = Finite s m"
    by (cases "value' s1") auto
  have nl: "CHR 0x0A \<notin> set (id' s1)"
    using idc by (auto simp: isspace_def)
  have lb: "loop_body p bytes True l =
           Inr (\<lparr>sensor = s1, stats = fst (monitor_quality s1 (stats l) (port_name p))\<rparr>,
                [Stdout (reading_line (port_name p) s1),
                 FileAppend ''sensor_data.csv''
                   (port_name p @ '','' @ id' s1 @ '','' @ fmt_2f (value' s1) @ ''\<newline>'')]
                  @ snd (monitor_quality s1 (stats l) (port_name p)))"
    using loop_body_accepted [OF acc, of p True] out
    by (simp add: log_to_csv_def csv_line_def)
  have fc: "CHR '','' \<notin> set (fmt_2f (value' s1)) \<and> CHR 0x0A \<notin> set (fmt_2f (value' s1))"
    unfolding v by (rule fmt_2f_chars)
  have tfd: "two_fraction_digits (fmt_2f (value' s1))"
    unfolding v by (rule fmt_2f_two_fraction_digits)
  have three: "csv_fields (port_name p @ '','' @ id' s1 @ '','' @ fmt_2f (value' s1))
              = [port_name p, id' s1, fmt_2f (value' s1)]"
    if "CHR '','' \<notin> set (port_name p) \<and> CHR '','' \<notin> set (id' s1)"
    using that fc by (simp add: csv_fields_three)
  have one: "CHR 0x0A \<notin> set (port_name p @ '','' @ id' s1 @ '','' @ fmt_2f (value' s1))"
    if "CHR 0x0A \<notin> set (port_name p)"
    using that nl fc by simp
  show ?thesis
    using lb monitor_quality_no_append three one tfd
    by simp
qed

text \<open>C8 at the frame \<open>TEMP 22.50\<close> on \<open>COM3\<close>: the record \<open>COM3,TEMP,22.50\<close>.\<close>

theorem csv_record_format_witness:
  "loop_body \<lparr>port_name = ''COM3'', hSerial = 11\<rparr> ''TEMP 22.50'' True
     \<lparr>sensor = \<lparr>id' = '''', value' = Finite False 0\<rparr>, stats = initial_stats\<rparr>
   = Inr (\<lparr>sensor = \<lparr>id' = ''TEMP'', value' = Finite False (45 / 2)\<rparr>,
           stats = fst (monitor_quality \<lparr>id' = ''TEMP'', value' = Finite False (45 / 2)\<rparr>
                          initial_stats ''COM3'')\<rparr>,
          [Stdout (reading_line ''COM3'' \<lparr>id' = ''TEMP'', value' = Finite False (45 / 2)\<rparr>),
           FileAppend ''sensor_data.csv'' ''COM3,TEMP,22.50\<newline>'']
            @ snd (monitor_quality \<lparr>id' = ''TEMP'', value' = Finite False (45 / 2)\<rparr>
                     initial_stats ''COM3''))
   \<and> two_fraction_digits ''22.50''
   \<and> csv_fields ''COM3,TEMP,22.50'' = [''COM3'', ''TEMP'', ''22.50'']"
  using csv_record_format [of "''TEMP 22.50''"
               "\<lparr>sensor = \<lparr>id' = '''', value' = Finite False 0\<rparr>, stats = initial_stats\<rparr>"
               "\<lparr>id' = ''TEMP'', value' = Finite False (45 / 2)\<rparr>" "[]"
               "\<lparr>port_name = ''COM3'', hSerial = 11\<rparr>"]
    frame_examples(1)
  by (simp add: fmt_2f_examples del: fmt_2f.simps)

text \<open>
  C8 as the specification words it fails for an identifier with a comma: the frame
  \<open>A,B 10\<close> on \<open>COM3\<close> gives the record \<open>COM3,A,B,10.00\<close>, of four
  comma-separated fields.
\<close>

theorem comma_in_tag_counterexample:
  "loop_body \<lparr>port_name = ''COM3'', hSerial = 11\<rparr> ''A,B 10'' True
     \<lparr>sensor = \<lparr>id' = '''', value' = Finite False 0\<rparr>, stats = initial_stats\<rparr>
   = Inr (\<lparr>sensor = \<lparr>id' = ''A,B'', value' = Finite False 10\<rparr>,
           stats = \<lparr>min_limit = Finite False 5, max_limit = Finite False 25,
                    total_value = Finite False 10, max_value = Finite False 10,
                    min_value = Finite False 10, count = 1\<rparr>\<rparr>,
          [Stdout ''[COM3] Sensor: A,B, Value: 10.00\<newline>'',
           FileAppend ''sensor_data.csv'' ''COM3,A,B,10.00\<newline>''])
   \<and> csv_fields ''COM3,A,B,10.00'' = [''COM3'', ''A'', ''B'', ''10.00'']"
proof
  show "loop_body \<lparr>port_name = ''COM3'', hSerial = 11\<rparr> ''A,B 10'' True
     \<lparr>sensor = \<lparr>id' = '''', value' = Finite False 0\<rparr>, stats = initial_stats\<rparr>
   = Inr (\<lparr>sensor = \<lparr>id' = ''A,B'', value' = Finite False 10\<rparr>,
           stats = \<lparr>min_limit = Finite False 5, max_limit = Finite False 25,
                    total_value = Finite False 10, max_value = Finite False 10,
                    min_value = Finite False 10, count = 1\<rparr>\<rparr>,
          [Stdout ''[COM3] Sensor: A,B, Value: 10.00\<newline>'',
           FileAppend ''sensor_data.csv'' ''COM3,A,B,10.00\<newline>''])"
    by code_simp
  show "csv_fields ''COM3,A,B,10.00'' = [''COM3'', ''A'', ''B'', ''10.00'']"
    by (simp add: csv_fields_def)
qed

section \<open>main\<close>

text \<open>
  The workers started are those of the ports that start, in order, whatever happens to
  the other ports; and \<open>main\<close> waits on exactly their threads if and only if every port
  starts.
\<close>

lemma start_loop_started:
  "start_loop i ps env st = Inr st' \<Longrightarrow>
     started st' = started st @ map (worker_of env) (filter (startable env) ps)"
proof (induction ps arbitrary: i st)
  case Nil
  then show ?case by simp
next
  case (Cons port ps)
  obtain h evs where ss: "setup_serial port (serial (env port)) = (h, evs)"
    by (cases "setup_serial port (serial (env port))") auto
  from Cons.prems have len: "\<not> 10 < length port + 1"
    by (auto split: if_splits)
  show ?case
  proof (cases "h = 0")
    case True
    with Cons.prems ss len
    have "start_loop (Suc i) ps env (st\<lparr>events := events st @ evs @ [Free port]\<rparr>) = Inr st'"
      by (simp add: Let_def)
    from Cons.IH [OF this] True ss show ?thesis
      by (simp add: startable_def)
  next
    case False
    show ?thesis
    proof (cases "begin_thread (env port) = 0")
      case True
      with Cons.prems ss len False obtain st1 where
        "start_loop (Suc i) ps env st1 = Inr st'" and "started st1 = started st"
        by (auto simp: Let_def)
      from Cons.IH [OF this(1)] this(2) True show ?thesis
        by (simp add: startable_def)
    next
      case th: False
      with Cons.prems ss len False obtain st1 where
        "start_loop (Suc i) ps env st1 = Inr st'"
        and "started st1 = started st @ [(\<lparr>port_name = port, hSerial = h\<rparr>, begin_thread (env port))]"
        by (auto simp: Let_def)
      from Cons.IH [OF this(1)] this(2) th False ss show ?thesis
        by (simp add: startable_def worker_of_def)
    qed
  qed
qed

lemma run_main_started:
  "run_main ps env = Inr st \<Longrightarrow> started st = map (worker_of env) (filter (startable env) ps)"
  by (auto simp: run_main_def split: sum.splits dest: start_loop_started)

lemma setup_serial_no_wait: "e \<in> set (snd (setup_serial port a)) \<Longrightarrow> \<not> is_wait e"
  by (auto simp: setup_serial_def split: option.splits if_splits)

lemma start_loop_threads:
  "start_loop i ps env st = Inr st' \<Longrightarrow> threads st = pre @ replicate (length ps) None \<Longrightarrow>
     length pre = i \<Longrightarrow> threads st' = pre @ map (slot_of env) ps"
proof (induction ps arbitrary: i st pre)
  case Nil
  then show ?case by simp
next
  case (Cons port ps)
  obtain h evs where ss: "setup_serial port (serial (env port)) = (h, evs)"
    by (cases "setup_serial port (serial (env port))") auto
  from Cons.prems have len: "\<not> 10 < length port + 1"
    by (auto split: if_splits)
  have thr: "threads st = (pre @ [None]) @ replicate (length ps) None"
    using Cons.prems(2) by simp
  have upd: "(threads st)[i := Some x] = (pre @ [Some x]) @ replicate (length ps) None" for x
    using Cons.prems(2,3) by (simp add: list_update_append)
  show ?case
  proof (cases "h = 0")
    case True
    with Cons.prems ss len obtain st1 where
      "start_loop (Suc i) ps env st1 = Inr st'" and "threads st1 = threads st"
      by (auto simp: Let_def)
    from Cons.IH [OF this(1), of "pre @ [None]"] this(2) thr Cons.prems(3) True ss
    show ?thesis
      by (simp add: slot_of_def)
  next
    case False
    with Cons.prems ss len obtain st1 where
      "start_loop (Suc i) ps env st1 = Inr st'"
      and "threads st1 = (threads st)[i := Some (begin_thread (env port))]"
      by (auto simp: Let_def split: if_splits)
    from Cons.IH [OF this(1), of "pre @ [Some (begin_thread (env port))]"] this(2) upd
      Cons.prems(3) False ss
    show ?thesis
      by (simp add: slot_of_def)
  qed
qed

lemma start_loop_no_wait:
  "start_loop i ps env st = Inr st' \<Longrightarrow> \<forall>e\<in>set (events st). \<not> is_wait e \<Longrightarrow>
     \<forall>e\<in>set (events st'). \<not> is_wait e"
proof (induction ps arbitrary: i st)
  case Nil
  then show ?case by simp
next
  case (Cons port ps)
  obtain h evs where ss: "setup_serial port (serial (env port)) = (h, evs)"
    by (cases "setup_serial port (serial (env port))") auto
  have evs: "\<forall>e\<in>set evs. \<not> is_wait e"
    using setup_serial_no_wait [of _ port "serial (env port)"] ss by simp
  from Cons.prems have len: "\<not> 10 < length port + 1"
    by (auto split: if_splits)
  from Cons.prems ss len obtain st1 where
    s1: "start_loop (Suc i) ps env st1 = Inr st'"
    and e1: "events st1 = events st @ evs @ [Free port]
             \<or> events st1 = events st @ evs
                  @ [Stdout (''[ERROR] Unable to create thread for port '' @ port @ ''\<newline>''),
                     CloseHandle h, Free port]
             \<or> events st1 = events st @ evs"
    by (auto simp: Let_def split: if_splits)
  from e1 evs Cons.prems(2) have "\<forall>e\<in>set (events st1). \<not> is_wait e"
    by auto
  from Cons.IH [OF s1 this] show ?case .
qed

lemma run_main_wait:
  assumes "run_main ps env = Inr st"
  shows "waits_on_started st = list_all (startable env) ps"
proof -
  from assms obtain st1 where
    sl: "start_loop 0 ps env \<lparr>threads = replicate (length ps) None, events = [], started = []\<rparr> = Inr st1"
    and st: "st = st1\<lparr>events := events st1 @
                 [WaitForMultipleObjects (length ps) (threads st1),
                  Stdout ''All threads finished.\<newline>'']\<rparr>"
    by (auto simp: run_main_def split: sum.splits)
  have thr: "threads st1 = map (slot_of env) ps"
    using start_loop_threads [OF sl, of "[]"] by simp
  have sta: "started st1 = map (worker_of env) (filter (startable env) ps)"
    using start_loop_started [OF sl] by simp
  have nw: "\<forall>e\<in>set (events st1). \<not> is_wait e"
    using start_loop_no_wait [OF sl] by simp
  have "waits_on_started st \<longleftrightarrow>
          length (filter (startable env) ps) = length ps
          \<and> map (\<lambda>w. Some (snd w)) (map (worker_of env) (filter (startable env) ps))
              = map (slot_of env) ps"
    using nw by (auto simp: waits_on_started_def st thr sta)
  also have "\<dots> \<longleftrightarrow> list_all (startable env) ps"
  proof
    assume "length (filter (startable env) ps) = length ps
          \<and> map (\<lambda>w. Some (snd w)) (map (worker_of env) (filter (startable env) ps))
              = map (slot_of env) ps"
    then have "filter (startable env) ps = ps"
      by (metis length_filter_less linorder_neq_iff filter_True)
    then show "list_all (startable env) ps"
      by (metis filter_id_conv list_all_iff)
  next
    assume a: "list_all (startable env) ps"
    then have f: "filter (startable env) ps = ps"
      by (simp add: list_all_iff)
    have "map (\<lambda>w. Some (snd w)) (map (worker_of env) ps) = map (slot_of env) ps"
      using a by (auto simp: list_all_iff worker_of_def slot_of_def startable_def)
    with f show "length (filter (startable env) ps) = length ps
          \<and> map (\<lambda>w. Some (snd w)) (map (worker_of env) (filter (startable env) ps))
              = map (slot_of env) ps"
      by simp
  qed
  finally show ?thesis .
qed

text \<open>
  C6 fails on the code in its second half. With \<open>COM4\<close> not to be opened, \<open>COM3\<close>
  and \<open>COM5\<close> are still started, but \<open>main\<close> then waits on all three slots of
  \<open>threads\<close>, the one of \<open>COM4\<close> never assigned; with the thread of \<open>COM4\<close> not to
  be created, that slot holds \<open>NULL\<close>. In neither case does it wait on the two threads
  started and nothing else.
\<close>

theorem main_waits_on_unstarted_slot:
  "run_main ports
     (\<lambda>p. if p = ''COM4''
          then \<lparr>serial = \<lparr>create_file = None, get_comm_state = True, set_comm_state = True\<rparr>,
                begin_thread = 0\<rparr>
          else if p = ''COM3''
          then \<lparr>serial = \<lparr>create_file = Some 11, get_comm_state = True, set_comm_state = True\<rparr>,
                begin_thread = 21\<rparr>
          else \<lparr>serial = \<lparr>create_file = Some 13, get_comm_state = True, set_comm_state = True\<rparr>,
                begin_thread = 23\<rparr>)
     = Inr \<lparr>threads = [Some 21, None, Some 23],
            events =
              [Stdout ''[ERROR] Unable to open serial port COM4\<newline>'', Free ''COM4'',
               WaitForMultipleObjects 3 [Some 21, None, Some 23],
               Stdout ''All threads finished.\<newline>''],
            started =
              [(\<lparr>port_name = ''COM3'', hSerial = 11\<rparr>, 21),
               (\<lparr>port_name = ''COM5'', hSerial = 13\<rparr>, 23)]\<rparr>
   \<and> \<not> waits_on_started
         \<lparr>threads = [Some 21, None, Some 23],
          events =
            [Stdout ''[ERROR] Unable to open serial port COM4\<newline>'', Free ''COM4'',
             WaitForMultipleObjects 3 [Some 21, None, Some 23],
             Stdout ''All threads finished.\<newline>''],
          started =
            [(\<lparr>port_name = ''COM3'', hSerial = 11\<rparr>, 21),
             (\<lparr>port_name = ''COM5'', hSerial = 13\<rparr>, 23)]\<rparr>
   \<and> run_main ports
     (\<lambda>p. if p = ''COM4''
          then \<lparr>serial = \<lparr>create_file = Some 12, get_comm_state = True, set_comm_state = True\<rparr>,
                begin_thread = 0\<rparr>
          else if p = ''COM3''
          then \<lparr>serial = \<lparr>create_file = Some 11, get_comm_state = True, set_comm_state = True\<rparr>,
                begin_thread = 21\<rparr>
          else \<lparr>serial = \<lparr>create_file = Some 13, get_comm_state = True, set_comm_state = True\<rparr>,
                begin_thread = 23\<rparr>)
     = Inr \<lparr>threads = [Some 21, Some 0, Some 23],
            events =
              [Stdout ''[ERROR] Unable to create thread for port COM4\<newline>'',
               CloseHandle 12, Free ''COM4'',
               WaitForMultipleObjects 3 [Some 21, Some 0, Some 23],
               Stdout ''All threads finished.\<newline>''],
            started =
              [(\<lparr>port_name = ''COM3'', hSerial = 11\<rparr>, 21),
               (\<lparr>port_name = ''COM5'', hSerial = 13\<rparr>, 23)]\<rparr>
   \<and> \<not> waits_on_started
         \<lparr>threads = [Some 21, Some 0, Some 23],
          events =
            [Stdout ''[ERROR] Unable to create thread for port COM4\<newline>'',
             CloseHandle 12, Free ''COM4'',
             WaitForMultipleObjects 3 [Some 21, Some 0, Some 23],
             Stdout ''All threads finished.\<newline>''],
          started =
            [(\<lparr>port_name = ''COM3'', hSerial = 11\<rparr>, 21),
             (\<lparr>port_name = ''COM5'', hSerial = 13\<rparr>, 23)]\<rparr>"
  by (simp add: run_main_def ports_def setup_serial_def waits_on_started_def)

end
